theory Spec2Isabelle
  imports Complex_Main
begin

section \<open>Byte strings\<close>

text \<open>
  The library is Python 2 (\<^verbatim>\<open>import Queue\<close>, \<^verbatim>\<open>.encode('hex')\<close>): a \<^verbatim>\<open>str\<close> is a byte
  string, modelled as \<^typ>\<open>string\<close>.  \<^verbatim>\<open>str.rstrip()\<close> without an argument removes every
  trailing whitespace byte (space, tab, line feed, vertical tab, form feed, carriage
  return), and \<^verbatim>\<open><=\<close> on two strings compares them byte by byte.
\<close>

definition NL :: string where
  "NL = [CHR 0x0A]"

definition is_space :: "char \<Rightarrow> bool" where
  "is_space c \<longleftrightarrow> c = CHR '' '' \<or> c = CHR 0x09 \<or> c = CHR 0x0A \<or> c = CHR 0x0B \<or> c = CHR 0x0C \<or> c = CHR 0x0D"

definition rstrip :: "string \<Rightarrow> string" where
  "rstrip s = rev (dropWhile is_space (rev s))"

fun str_le :: "string \<Rightarrow> string \<Rightarrow> bool" where
  "str_le [] t = True"
| "str_le (a # s) [] = False"
| "str_le (a # s) (b # t) = (if a = b then str_le s t else (of_char a :: nat) < of_char b)"

text \<open>\<^verbatim>\<open>'\n'.join(lines)\<close>\<close>

fun join_nl :: "string list \<Rightarrow> string" where
  "join_nl [] = []"
| "join_nl [l] = l"
| "join_nl (l # ls) = l @ NL @ join_nl ls"

text \<open>\<^verbatim>\<open>fname.startswith(prefix)\<close>\<close>

definition startswith :: "string \<Rightarrow> string \<Rightarrow> bool" where
  "startswith s pre \<longleftrightarrow> take (length pre) s = pre"

section \<open>The socket and its peer\<close>

text \<open>
  Socket operations raise \<^verbatim>\<open>socket.error\<close> or \<^verbatim>\<open>socket.timeout\<close>.  In Python 2 (and, with
  \<^verbatim>\<open>socket.error\<close> an alias of \<^verbatim>\<open>OSError\<close>, in Python 3) \<^verbatim>\<open>socket.timeout\<close> is a subclass of
  \<^verbatim>\<open>socket.error\<close>, which is a subclass of \<^verbatim>\<open>Exception\<close>.  An \<^verbatim>\<open>except C\<close> clause catches an
  exception exactly when the exception is an instance of \<^verbatim>\<open>C\<close>, and the first clause that
  catches wins.
\<close>

datatype pyexc = SocketTimeout | SocketError

datatype excclass = C_socket_error | C_socket_timeout | C_Exception

fun is_instance :: "pyexc \<Rightarrow> excclass \<Rightarrow> bool" where
  "is_instance SocketTimeout c = True"
| "is_instance SocketError c = (c \<noteq> C_socket_timeout)"

text \<open>
  The peer of one connection is given by what it will do: the outcomes of the successive
  \<^verbatim>\<open>readline()\<close> calls (a line with its newline, the empty string at end of file, or an
  exception) and of the successive \<^verbatim>\<open>write(); flush()\<close> pairs.  A peer whose script of reads
  is used up has closed the connection; writes beyond the script succeed.
\<close>

record peer =
  rds :: "(pyexc + string) list"
  wrs :: "pyexc option list"

definition readline :: "peer \<Rightarrow> (pyexc + string) \<times> peer" where
  "readline p = (case rds p of [] \<Rightarrow> (Inr [], p) | r # rs \<Rightarrow> (r, p\<lparr>rds := rs\<rparr>))"

definition write_flush :: "peer \<Rightarrow> pyexc option \<times> peer" where
  "write_flush p = (case wrs p of [] \<Rightarrow> (None, p) | w # ws \<Rightarrow> (w, p\<lparr>wrs := ws\<rparr>))"

text \<open>
  What the process does on the network is recorded in order: every call of
  \<^verbatim>\<open>socket.create_connection\<close> and every \<^verbatim>\<open>write\<close> with the bytes handed to it.
\<close>

datatype event = Dial | Write string

section \<open>InfoBeamerQuery\<close>

datatype qerr =
    ReopenTimeout       \<comment> \<open>"Timeout while reopening connection"\<close>
  | CannotConnect       \<comment> \<open>"Cannot connect to ..."\<close>
  | InvalidHandshake    \<comment> \<open>"Invalid handshake. Not info-beamer?"\<close>
  | Unsupported         \<comment> \<open>"This query is not implemented in your version of info-beamer. ..."\<close>
  | ResponseTimeout     \<comment> \<open>"Timeout waiting for response"\<close>
  | NoResponse          \<comment> \<open>"Failed to get a response"\<close>
  | NodeRefused         \<comment> \<open>"Cannot connect to node ..."\<close>

text \<open>
  \<open>conn\<close> stands for \<^verbatim>\<open>self._conn\<close> and \<^verbatim>\<open>self._sock\<close>, which are set and cleared together;
  \<open>net\<close> holds the outcomes of the calls of \<^verbatim>\<open>socket.create_connection\<close> still to come
  (none left: the connection is refused).
\<close>

record link =
  conn :: "peer option"
  version :: "string option"
  net :: "(pyexc + peer) list"
  wire :: "event list"

definition reset :: "link \<Rightarrow> link" where
  "reset l = l\<lparr>conn := None\<rparr>"

text \<open>\<^verbatim>\<open>re.match("^Info Beamer PI ([^ ]+)", intro)\<close>: the group is the longest run of
  bytes other than a space (a newline is such a byte) after the fixed prefix.\<close>

definition match_intro :: "string \<Rightarrow> string option" where
  "match_intro intro =
     (if startswith intro ''Info Beamer PI '' then
        (let tok = takeWhile (\<lambda>c. c \<noteq> CHR '' '') (drop (length ''Info Beamer PI '') intro)
         in if tok = [] then None else Some tok)
      else None)"

definition reconnect_failed :: "pyexc \<Rightarrow> link \<Rightarrow> (qerr \<times> link) + link" where
  "reconnect_failed e l =
     (if is_instance e C_socket_timeout then Inl (ReopenTimeout, reset l)
      else Inl (CannotConnect, reset l))"

definition reconnect :: "link \<Rightarrow> (qerr \<times> link) + link" where
  "reconnect l =
     (if conn l \<noteq> None then Inr l
      else
        (let l1 = l\<lparr>wire := wire l @ [Dial], net := tl (net l)\<rparr> in
         case net l of
           [] \<Rightarrow> reconnect_failed SocketError l1
         | Inl e # _ \<Rightarrow> reconnect_failed e l1
         | Inr p # _ \<Rightarrow>
             (case readline p of
                (Inl e, p') \<Rightarrow> reconnect_failed e (l1\<lparr>conn := Some p'\<rparr>)
              | (Inr intro, p') \<Rightarrow>
                  (case match_intro intro of
                     None \<Rightarrow> Inl (InvalidHandshake, reset (l1\<lparr>conn := Some p'\<rparr>))
                   | Some v \<Rightarrow> Inr (l1\<lparr>conn := Some p', version := Some v\<rparr>)))))"

definition parse_line :: "peer \<Rightarrow> (pyexc + string option) \<times> peer" where
  "parse_line p =
     (case readline p of
        (Inl e, p') \<Rightarrow> (Inl e, p')
      | (Inr line, p') \<Rightarrow> (if line = [] then (Inr None, p') else (Inr (Some (rstrip line)), p')))"

text \<open>The \<^verbatim>\<open>while 1\<close> loop of \<^verbatim>\<open>_parse_multi_line\<close>, by recursion on the reads to come;
  \<open>lines\<close> is the list accumulated so far.\<close>

fun multi_loop :: "string list \<Rightarrow> (pyexc + string) list \<Rightarrow> (pyexc + string option) \<times> (pyexc + string) list" where
  "multi_loop lines [] = (Inr None, [])"
| "multi_loop lines (Inl e # rs) = (Inl e, rs)"
| "multi_loop lines (Inr line # rs) =
     (if line = [] then (Inr None, rs)
      else if rstrip line = [] then (Inr (Some (join_nl lines)), rs)
      else multi_loop (lines @ [rstrip line]) rs)"

definition parse_multi_line :: "peer \<Rightarrow> (pyexc + string option) \<times> peer" where
  "parse_multi_line p = (case multi_loop [] (rds p) of (r, rs) \<Rightarrow> (r, p\<lparr>rds := rs\<rparr>))"

text \<open>The body of the \<^verbatim>\<open>try\<close> block up to the test of the response: write the command,
  flush, parse.\<close>

definition exchange :: "bool \<Rightarrow> peer \<Rightarrow> (pyexc + string option) \<times> peer" where
  "exchange multiline p =
     (case write_flush p of
        (Some e, p1) \<Rightarrow> (Inl e, p1)
      | (None, p1) \<Rightarrow> (if multiline then parse_multi_line p1 else parse_line p1))"

text \<open>What one iteration of \<^verbatim>\<open>for retry in (1, 2)\<close> ends with.\<close>

datatype outcome = Return string | Raise qerr | Continue

text \<open>The \<^verbatim>\<open>except\<close> clauses of \<^verbatim>\<open>_send_cmd\<close>, in the order of the source.\<close>

definition send_failed :: "pyexc \<Rightarrow> link \<Rightarrow> outcome \<times> link" where
  "send_failed e l =
     (if is_instance e C_socket_error then (Continue, reset l)
      else if is_instance e C_socket_timeout then (Raise ResponseTimeout, reset l)
      else (Continue, reset l))"

text \<open>Python 2 orders \<^verbatim>\<open>None\<close> below every string.  Without a stream \<^verbatim>\<open>self._conn.write\<close>
  raises \<^verbatim>\<open>AttributeError\<close> before anything is written, which \<^verbatim>\<open>except Exception\<close> catches.\<close>

fun ver_le :: "string option \<Rightarrow> string \<Rightarrow> bool" where
  "ver_le None m = True"
| "ver_le (Some v) m = str_le v m"

definition send_attempt :: "string \<Rightarrow> string \<Rightarrow> bool \<Rightarrow> link \<Rightarrow> outcome \<times> link" where
  "send_attempt min_version cmd multiline l =
     (case reconnect l of
        Inl (e, l1) \<Rightarrow> (Raise e, l1)
      | Inr l1 \<Rightarrow>
          if ver_le (version l1) min_version then (Raise Unsupported, l1)
          else
            (case conn l1 of
               None \<Rightarrow> (Continue, reset l1)
             | Some p \<Rightarrow>
                 (let l2 = l1\<lparr>wire := wire l1 @ [Write (cmd @ NL)]\<rparr> in
                  case exchange multiline p of
                    (Inl e, p') \<Rightarrow> send_failed e (l2\<lparr>conn := Some p'\<rparr>)
                  | (Inr None, p') \<Rightarrow> (Continue, reset (l2\<lparr>conn := Some p'\<rparr>))
                  | (Inr (Some response), p') \<Rightarrow> (Return response, l2\<lparr>conn := Some p'\<rparr>))))"

fun send_loop :: "nat list \<Rightarrow> string \<Rightarrow> string \<Rightarrow> bool \<Rightarrow> link \<Rightarrow> (qerr + string) \<times> link" where
  "send_loop [] min_version cmd multiline l = (Inl NoResponse, l)"
| "send_loop (retry # retries) min_version cmd multiline l =
     (case send_attempt min_version cmd multiline l of
        (Return response, l') \<Rightarrow> (Inr response, l')
      | (Raise e, l') \<Rightarrow> (Inl e, l')
      | (Continue, l') \<Rightarrow> send_loop retries min_version cmd multiline l')"

definition send_cmd :: "string \<Rightarrow> string \<Rightarrow> bool \<Rightarrow> link \<Rightarrow> (qerr + string) \<times> link" where
  "send_cmd min_version cmd multiline l = send_loop [1, 2] min_version cmd multiline l"

text \<open>Observations on the record of network activity: the bytes handed to \<^verbatim>\<open>write\<close>, and the
  number of connections opened.\<close>

fun written :: "event list \<Rightarrow> string" where
  "written [] = []"
| "written (Dial # es) = written es"
| "written (Write s # es) = s @ written es"

fun writes :: "event list \<Rightarrow> nat" where
  "writes [] = 0"
| "writes (Dial # es) = writes es"
| "writes (Write s # es) = Suc (writes es)"

fun dials :: "event list \<Rightarrow> nat" where
  "dials [] = 0"
| "dials (Dial # es) = Suc (dials es)"
| "dials (Write s # es) = dials es"

section \<open>Python values and their encoding\<close>

text \<open>
  The arguments of \<^verbatim>\<open>log\<close> and of an outbound call are Python values.  The expression
  \<^verbatim>\<open>json.dumps(..., ensure_ascii=False, separators=(',',':')).encode('utf8')\<close> belongs to the
  standard library; it is a parameter \<open>dumps\<close>, which returns the bytes or the exception
  raised (\<^verbatim>\<open>json.dumps\<close> raises \<^verbatim>\<open>TypeError\<close> for a value that is no JSON value, such as
  \<^verbatim>\<open>object()\<close>).
\<close>

datatype exn = OSError | TypeError | ValueError

datatype pyval = PNone | PInt int | PFloat real | PStr string | PObject nat

section \<open>RPC\<close>

text \<open>\<^verbatim>\<open>InfoBeamerQuery.Node.io\<close>: ask for a raw connection to the node and hand out the
  stream of the query object.\<close>

definition node_io :: "bool \<Rightarrow> string \<Rightarrow> link \<Rightarrow> (qerr + peer option) \<times> link" where
  "node_io raw path l =
     (case send_cmd ''0.6'' ((if raw then ''*raw/'' else []) @ path) False l of
        (Inl e, l') \<Rightarrow> (Inl e, l')
      | (Inr status, l') \<Rightarrow>
          if status \<noteq> ''ok!'' then (Inl NodeRefused, l') else (Inr (conn l'), l'))"

text \<open>
  An \<^verbatim>\<open>RPC\<close> object: \<open>con\<close> is \<^verbatim>\<open>self._con\<close>; the network behind it and the record of what
  was done on it are carried along.  Each \<^verbatim>\<open>_get_connection\<close> that finds no stream makes a new
  \<^verbatim>\<open>InfoBeamerQuery()\<close>, which starts disconnected.
\<close>

record rpc =
  rpc_path :: string
  con :: "peer option"
  rpc_net :: "(pyexc + peer) list"
  rpc_wire :: "event list"

definition get_connection :: "rpc \<Rightarrow> peer option \<times> rpc" where
  "get_connection r =
     (case con r of
        Some p \<Rightarrow> (Some p, r)
      | None \<Rightarrow>
          (case node_io True (rpc_path r @ ''/rpc/python'')
                  \<lparr>conn = None, version = None, net = rpc_net r, wire = rpc_wire r\<rparr> of
             (Inl e, l') \<Rightarrow> (None, r\<lparr>rpc_net := net l', rpc_wire := wire l'\<rparr>)
           | (Inr c, l') \<Rightarrow> (c, r\<lparr>con := c, rpc_net := net l', rpc_wire := wire l'\<rparr>)))"

definition close_connection :: "rpc \<Rightarrow> rpc" where
  "close_connection r = r\<lparr>con := None\<rparr>"

text \<open>What \<^verbatim>\<open>_send\<close> returns: \<^verbatim>\<open>None\<close> (the bare \<^verbatim>\<open>return\<close>), \<^verbatim>\<open>True\<close> or \<^verbatim>\<open>False\<close>.  The bare
  \<^verbatim>\<open>except:\<close> catches whatever the write raises, and \<^verbatim>\<open>_get_connection\<close> catches the
  exceptions of the query, so no exception leaves \<^verbatim>\<open>_send\<close>.\<close>

datatype pyret = PyNone | PyTrue | PyFalse

fun truthy :: "pyret \<Rightarrow> bool" where
  "truthy PyNone = False"
| "truthy PyTrue = True"
| "truthy PyFalse = False"

definition rpc_send :: "string \<Rightarrow> rpc \<Rightarrow> pyret \<times> rpc" where
  "rpc_send line r =
     (case get_connection r of
        (None, r1) \<Rightarrow> (PyNone, r1)
      | (Some p, r1) \<Rightarrow>
          (let r2 = r1\<lparr>rpc_wire := rpc_wire r1 @ [Write (line @ NL)]\<rparr> in
           case write_flush p of
             (None, p') \<Rightarrow> (PyTrue, r2\<lparr>con := Some p'\<rparr>)
           | (Some e, p') \<Rightarrow> (PyFalse, close_connection r2)))"

text \<open>
  The function that \<^verbatim>\<open>__getattr__(method)\<close> returns: the method name is put in front of the
  arguments, the list is encoded, and the line goes to \<^verbatim>\<open>_send\<close>.  The encoding is outside
  every \<^verbatim>\<open>try\<close>: what it raises leaves the call, before \<^verbatim>\<open>_send\<close> is reached.
\<close>

definition rpc_call :: "(pyval list \<Rightarrow> exn + string) \<Rightarrow> string \<Rightarrow> pyval list \<Rightarrow> rpc \<Rightarrow> (exn + pyret) \<times> rpc" where
  "rpc_call dumps method args r =
     (case dumps (PStr method # args) of
        Inl x \<Rightarrow> (Inl x, r)
      | Inr line \<Rightarrow> (case rpc_send line r of (v, r') \<Rightarrow> (Inr v, r')))"

section \<open>ProofOfPlay\<close>

text \<open>
  \<open>pop_info\<close> is what \<^verbatim>\<open>self._api.pop.get()\<close> delivered to the constructor.  Times are
  Python floats, taken here as real numbers.  The directory \<^verbatim>\<open>self._prefix\<close> is a map from
  file names to contents.
\<close>

record pop_info =
  max_delay :: real
  max_lines :: int
  submission_min_delay :: real
  submission_error_delay :: real

type_synonym files = "string \<rightharpoonup> string"

subsection \<open>Random bytes and ids\<close>

text \<open>
  \<^verbatim>\<open>get_random_bytes\<close>: the system call is given by its return value and the bytes it put
  into the buffer, which starts as \<open>num_bytes\<close> zero bytes.
\<close>

definition get_random_bytes :: "nat \<Rightarrow> int \<times> string \<Rightarrow> exn + string" where
  "get_random_bytes num_bytes sys =
     (case sys of (result, buf) \<Rightarrow>
        if result \<noteq> int num_bytes then Inl OSError
        else Inr (take num_bytes (buf @ replicate num_bytes (CHR 0x00))))"

definition hex_digit :: "nat \<Rightarrow> char" where
  "hex_digit d = ''0123456789abcdef'' ! d"

fun hex_nat :: "nat \<Rightarrow> string" where
  "hex_nat n = (if n < 16 then [hex_digit n] else hex_nat (n div 16) @ [hex_digit (n mod 16)])"

declare hex_nat.simps [simp del]

text \<open>\<^verbatim>\<open>"%08x" % t\<close> for a time \<open>t\<close> whose integer part is \<open>n\<close>, and \<^verbatim>\<open>s.encode('hex')\<close>.\<close>

definition hex8 :: "nat \<Rightarrow> string" where
  "hex8 n = replicate (8 - length (hex_nat n)) (CHR ''0'') @ hex_nat n"

definition hexlify :: "string \<Rightarrow> string" where
  "hexlify s = concat (map (\<lambda>c. [hex_digit (of_char c div 16), hex_digit (of_char c mod 16)]) s)"

subsection \<open>The submit thread\<close>

text \<open>
  What \<^verbatim>\<open>self._submit(fullname, len(files))\<close> ends with: the value that \<^verbatim>\<open>APIProxy.post\<close>
  returns; an \<^verbatim>\<open>APIError\<close> (\<^verbatim>\<open>post\<close> turns every exception of the request, of the HTTP status,
  of the JSON decoding and of the test of \<^verbatim>\<open>ok\<close> into one); or the exception of \<^verbatim>\<open>open\<close>, which
  is outside \<^verbatim>\<open>post\<close>.  The value returned is a dictionary, given by its \<^verbatim>\<open>disabled\<close> entry if
  it has one, or no dictionary: \<^verbatim>\<open>None\<close> for status 304 or for an answer without a \<^verbatim>\<open>pop\<close>
  entry, the raw content for a content type other than \<^verbatim>\<open>application/json\<close>.
\<close>

datatype status = Dict "bool option" | NoDict

datatype upload = Returned status | APIError | OpenError

text \<open>\<^verbatim>\<open>status['disabled']\<close>: \<^verbatim>\<open>KeyError\<close> for a dictionary without the entry, \<^verbatim>\<open>TypeError\<close> for
  a value that is no dictionary; \<open>None\<close> stands for either.\<close>

fun disabled_of :: "status \<Rightarrow> bool option" where
  "disabled_of (Dict entry) = entry"
| "disabled_of NoDict = None"

text \<open>
  The \<^verbatim>\<open>for fname in files\<close> loop.  The result says whether an exception left the loop (it
  is caught by the outer \<^verbatim>\<open>except Exception\<close>), the delay and the directory.  \<^verbatim>\<open>os.stat\<close> of
  a name that is not in the directory raises.  Only \<^verbatim>\<open>except APIError\<close> sets the error delay.
\<close>

fun submit_files :: "pop_info \<Rightarrow> (string \<Rightarrow> nat \<Rightarrow> upload) \<Rightarrow> nat \<Rightarrow> string list \<Rightarrow> real \<Rightarrow> files
    \<Rightarrow> bool \<times> real \<times> files" where
  "submit_files info post n [] delay fs = (False, delay, fs)"
| "submit_files info post n (fname # rest) delay fs =
     (case fs fname of
        None \<Rightarrow> (True, delay, fs)
      | Some content \<Rightarrow>
          if length content = 0 then submit_files info post n rest delay (fs(fname := None))
          else
            (case post fname n of
               APIError \<Rightarrow> (False, submission_error_delay info, fs)
             | OpenError \<Rightarrow> (True, delay, fs)
             | Returned status \<Rightarrow>
                 (case disabled_of status of
                    None \<Rightarrow> (True, delay, fs)
                  | Some disabled \<Rightarrow> (False, delay, fs(fname := None)))))"

text \<open>One pass of the \<^verbatim>\<open>while 1\<close> loop of \<^verbatim>\<open>_submit_thread\<close>, up to the \<^verbatim>\<open>time.sleep(delay)\<close>:
  \<open>listing\<close> is what \<^verbatim>\<open>os.listdir\<close> returned.  The result is the delay slept and the
  directory.\<close>

definition submit_cycle :: "pop_info \<Rightarrow> (string \<Rightarrow> nat \<Rightarrow> upload) \<Rightarrow> string list \<Rightarrow> files \<Rightarrow> real \<times> files" where
  "submit_cycle info post listing fs =
     (let delay = submission_min_delay info;
          files = filter (\<lambda>fname. startswith fname ''submit-'') listing
      in case submit_files info post (length files) files delay fs of
           (True, delay', fs') \<Rightarrow> (delay', fs')
         | (False, delay', fs') \<Rightarrow> (if files = [] then 10 else delay', fs'))"

subsection \<open>The writer thread\<close>

text \<open>
  The writer: the deadline \<open>submit\<close>, the counter \<open>lines\<close>, and the directory \<open>disk\<close>, in which
  \<^verbatim>\<open>current.log\<close> is the file that \<^verbatim>\<open>log_file\<close> is open on.  \<open>renamed\<close> records the calls of
  \<^verbatim>\<open>os.rename\<close> in order: the new name and the content of the file that got it.
\<close>

record writer =
  submit :: real
  lines :: nat
  disk :: files
  renamed :: "(string \<times> string) list"

definition log_name :: string where
  "log_name = ''current.log''"

definition reopen_log :: "int \<times> string \<Rightarrow> writer \<Rightarrow> exn + writer" where
  "reopen_log sys w =
     (case disk w log_name of
        None \<Rightarrow> Inr (w\<lparr>disk := (disk w)(log_name \<mapsto> [])\<rparr>)
      | Some content \<Rightarrow>
          (case get_random_bytes 16 sys of
             Inl e \<Rightarrow> Inl e
           | Inr bytes \<Rightarrow>
               (let name = ''submit-'' @ hexlify bytes @ ''.log'' in
                Inr (w\<lparr>disk := (((disk w)(log_name := None))(name \<mapsto> content))(log_name \<mapsto> []),
                       renamed := renamed w @ [(name, content)]\<rparr>))))"

text \<open>
  What one pass of the \<^verbatim>\<open>while 1\<close> loop of \<^verbatim>\<open>_writer_thread\<close> meets: the result of
  \<^verbatim>\<open>self._q.get\<close> (a line, or \<^verbatim>\<open>None\<close> for \<^verbatim>\<open>Queue.Empty\<close>); whether write, flush and fsync all
  go through; if one of them raises, how many bytes of the line and its newline are in the
  file by then (none when the write raises, all of them when only fsync raises); and,
  should the log be reopened, the monotonic time then and the result of the system call
  for the random name.  When one of the three raises the counter is not incremented
  (\<^verbatim>\<open>except Exception\<close> only logs).  The time waited, \<open>max_wait\<close>, does not enter the state.
\<close>

record tick =
  got :: "string option"
  stored :: bool
  reached :: nat
  clock :: real
  rand :: "int \<times> string"

definition max_wait :: "real \<Rightarrow> real \<Rightarrow> real" where
  "max_wait deadline now = max (1 / 10) (deadline - now)"

text \<open>The first line of \<^verbatim>\<open>_writer_thread\<close>: an active file left behind by an earlier run is
  renamed to a segment before the loop starts.\<close>

definition writer_start :: "pop_info \<Rightarrow> real \<Rightarrow> int \<times> string \<Rightarrow> files \<Rightarrow> exn + writer" where
  "writer_start info now sys dir =
     reopen_log sys \<lparr>submit = now + max_delay info, lines = 0, disk = dir, renamed = []\<rparr>"

definition writer_step :: "pop_info \<Rightarrow> tick \<Rightarrow> writer \<Rightarrow> exn + writer" where
  "writer_step info t w =
     (let (w1, reopen) =
        (case got t of
           Some line \<Rightarrow>
             (if stored t then
                (w\<lparr>disk := (case disk w log_name of
                             None \<Rightarrow> disk w
                           | Some content \<Rightarrow> (disk w)(log_name \<mapsto> content @ line @ NL)),
                    lines := lines w + 1\<rparr>, False)
              else
                (w\<lparr>disk := (case disk w log_name of
                             None \<Rightarrow> disk w
                           | Some content \<Rightarrow>
                               (disk w)(log_name \<mapsto> content @ take (reached t) (line @ NL)))\<rparr>,
                 False))
         | None \<Rightarrow>
             (if lines w = 0 then (w\<lparr>submit := submit w + max_delay info\<rparr>, False)
              else (w, True)))
      in if int (lines w1) \<ge> max_lines info \<or> reopen then
           (case reopen_log (rand t) w1 of
              Inl e \<Rightarrow> Inl e
            | Inr w2 \<Rightarrow> Inr (w2\<lparr>submit := clock t + max_delay info, lines := 0\<rparr>))
         else Inr w1)"

fun writer_run :: "pop_info \<Rightarrow> tick list \<Rightarrow> writer \<Rightarrow> exn + writer" where
  "writer_run info [] w = Inr w"
| "writer_run info (t # ts) w =
     (case writer_step info t w of Inl e \<Rightarrow> Inl e | Inr w' \<Rightarrow> writer_run info ts w')"

subsection \<open>Logging an event\<close>

text \<open>The queue is \<^verbatim>\<open>Queue.Queue()\<close>, without a bound: \<^verbatim>\<open>put\<close> appends.\<close>

definition pop_log :: "(pyval list \<Rightarrow> exn + string) \<Rightarrow> nat \<Rightarrow> int \<times> string
    \<Rightarrow> pyval \<Rightarrow> pyval \<Rightarrow> pyval \<Rightarrow> pyval \<Rightarrow> string list \<Rightarrow> exn + string list" where
  "pop_log dumps now sys play_start duration asset_id asset_filename q =
     (case get_random_bytes 12 sys of
        Inl e \<Rightarrow> Inl e
      | Inr bytes \<Rightarrow>
          (let uuid = hex8 now @ hexlify bytes in
           case dumps [PStr uuid, play_start, duration,
                       (if asset_id = PNone then PInt 0 else asset_id), asset_filename] of
             Inl e \<Rightarrow> Inl e
           | Inr line \<Rightarrow> Inr (q @ [line])))"

section \<open>Properties of InfoBeamerQuery\<close>

lemma send_failed_retries: "send_failed e l = (Continue, reset l)"
  by (cases e) (simp_all add: send_failed_def)

lemma reconnect_connected: "conn l = Some p \<Longrightarrow> reconnect l = Inr l"
  by (simp add: reconnect_def)

lemma reconnect_Inl:
  assumes "reconnect l = Inl (e, l')"
  shows "conn l = None \<and> conn l' = None \<and> wire l' = wire l @ [Dial] \<and> e \<noteq> Unsupported \<and> e \<noteq> NoResponse"
proof -
  from assms have c: "conn l = None" by (auto simp: reconnect_def split: if_splits)
  have rf: "\<And>x m. reconnect_failed x m = Inl (e, l') \<Longrightarrow> conn l' = None \<and> wire l' = wire m \<and> e \<noteq> Unsupported \<and> e \<noteq> NoResponse"
    by (auto simp: reconnect_failed_def reset_def split: if_splits)
  show ?thesis
  proof (cases "net l")
    case Nil
    with assms c show ?thesis by (auto simp: reconnect_def Let_def dest!: rf)
  next
    case (Cons d ds)
    show ?thesis
    proof (cases d)
      case (Inl x)
      with Cons assms c show ?thesis by (auto simp: reconnect_def Let_def dest!: rf)
    next
      case (Inr p)
      with Cons assms c show ?thesis
        by (auto simp: reconnect_def reset_def Let_def split: prod.splits sum.splits option.splits dest!: rf)
    qed
  qed
qed

lemma reconnect_Inr:
  assumes "reconnect l = Inr l'"
  shows "conn l' \<noteq> None \<and> net l' = (if conn l = None then tl (net l) else net l)
     \<and> wire l' = (if conn l = None then wire l @ [Dial] else wire l)"
proof (cases "conn l")
  case (Some p)
  with assms show ?thesis by (simp add: reconnect_def Let_def)
next
  case None
  have rf: "\<And>x m. reconnect_failed x m \<noteq> Inr l'"
    by (simp add: reconnect_failed_def)
  show ?thesis
  proof (cases "net l")
    case Nil
    with assms None rf show ?thesis by (simp add: reconnect_def Let_def)
  next
    case (Cons d ds)
    show ?thesis
    proof (cases d)
      case (Inl x)
      with Cons assms None rf show ?thesis by (simp add: reconnect_def Let_def)
    next
      case (Inr p)
      with Cons assms None rf show ?thesis
        by (auto simp: reconnect_def Let_def split: prod.splits sum.splits option.splits)
    qed
  qed
qed

lemma send_attempt_gate:
  "reconnect l = Inr l1 \<Longrightarrow> ver_le (version l1) mv \<Longrightarrow> send_attempt mv cmd ml l = (Raise Unsupported, l1)"
  by (simp add: send_attempt_def)

lemma send_attempt_exchange:
  assumes "reconnect l = Inr l1" "\<not> ver_le (version l1) mv" "conn l1 = Some p"
  shows "send_attempt mv cmd ml l =
     (case exchange ml p of
        (Inr (Some r), p') \<Rightarrow> (Return r, l1\<lparr>wire := wire l1 @ [Write (cmd @ NL)], conn := Some p'\<rparr>)
      | (_, p') \<Rightarrow> (Continue, l1\<lparr>wire := wire l1 @ [Write (cmd @ NL)], conn := None\<rparr>))"
  using assms
  by (simp add: send_attempt_def send_failed_retries reset_def split: prod.splits sum.splits option.splits)

lemma send_attempt_Continue:
  assumes "send_attempt mv cmd ml l = (Continue, l')"
  shows "conn l' = None"
proof (cases "reconnect l")
  case (Inl a)
  with assms show ?thesis by (simp add: send_attempt_def split: prod.splits)
next
  case (Inr l1)
  with reconnect_Inr[OF Inr] obtain p where p: "conn l1 = Some p" by auto
  show ?thesis
  proof (cases "ver_le (version l1) mv")
    case True
    with Inr assms show ?thesis by (simp add: send_attempt_gate)
  next
    case False
    from assms show ?thesis unfolding send_attempt_exchange[OF Inr False p]
      by (auto split: prod.splits sum.splits option.splits)
  qed
qed

lemma send_attempt_Raise:
  assumes "send_attempt mv cmd ml l = (Raise e, l')"
  shows "(e = Unsupported \<and> reconnect l = Inr l' \<and> ver_le (version l') mv) \<or>
         (e \<noteq> Unsupported \<and> e \<noteq> NoResponse \<and> reconnect l = Inl (e, l'))"
proof (cases "reconnect l")
  case (Inl a)
  with assms reconnect_Inl[of l "fst a" "snd a"] show ?thesis
    by (auto simp: send_attempt_def split: prod.splits)
next
  case (Inr l1)
  with reconnect_Inr[OF Inr] obtain p where p: "conn l1 = Some p" by auto
  show ?thesis
  proof (cases "ver_le (version l1) mv")
    case True
    with Inr assms show ?thesis by (simp add: send_attempt_gate)
  next
    case False
    from assms show ?thesis unfolding send_attempt_exchange[OF Inr False p]
      by (auto split: prod.splits sum.splits option.splits)
  qed
qed

lemma send_cmd_unfold:
  "send_cmd mv cmd ml l =
     (case send_attempt mv cmd ml l of
        (Return r, l') \<Rightarrow> (Inr r, l')
      | (Raise e, l') \<Rightarrow> (Inl e, l')
      | (Continue, l') \<Rightarrow>
          (case send_attempt mv cmd ml l' of
             (Return r, l'') \<Rightarrow> (Inr r, l'')
           | (Raise e, l'') \<Rightarrow> (Inl e, l'')
           | (Continue, l'') \<Rightarrow> (Inl NoResponse, l'')))"
  by (simp add: send_cmd_def split: prod.splits outcome.splits)

lemma written_append: "written (es @ fs) = written es @ written fs"
  by (induction es rule: written.induct) simp_all

lemma writes_append: "writes (es @ fs) = writes es + writes fs"
  by (induction es rule: writes.induct) simp_all

lemma dials_append: "dials (es @ fs) = dials es + dials fs"
  by (induction es rule: dials.induct) simp_all

subsection \<open>The version gate\<close>

text \<open>
  Claim C4.  When the link is connected, or connects now, and the version negotiated in the
  handshake is not greater than the minimum version of the command, \<^verbatim>\<open>_send_cmd\<close> raises the
  "not implemented in your version" exception in its first iteration, and nothing has been
  written to the socket: the bytes written are those written before the call.
\<close>
theorem send_cmd_unsupported_writes_nothing:
  assumes "reconnect l = Inr l1" and "version l1 = Some v" and "str_le v min_version"
  shows "send_cmd min_version cmd multiline l = (Inl Unsupported, l1) \<and>
         written (wire l1) = written (wire l) \<and> writes (wire l1) = writes (wire l)"
proof -
  from assms have "send_attempt min_version cmd multiline l = (Raise Unsupported, l1)"
    by (simp add: send_attempt_gate)
  then have "send_cmd min_version cmd multiline l = (Inl Unsupported, l1)"
    by (simp add: send_cmd_unfold)
  moreover from reconnect_Inr[OF assms(1)] have "written (wire l1) = written (wire l)" "writes (wire l1) = writes (wire l)"
    by (simp_all add: written_append writes_append)
  ultimately show ?thesis by simp
qed

theorem send_cmd_unsupported_writes_nothing_witness:
  "reconnect \<lparr>conn = None, version = None,
      net = [Inr \<lparr>rds = [Inr (''Info Beamer PI 0.9 (test)'' @ NL)], wrs = []\<rparr>], wire = []\<rparr>
     = Inr \<lparr>conn = Some \<lparr>rds = [], wrs = []\<rparr>, version = Some ''0.9'', net = [], wire = [Dial]\<rparr>
   \<and> str_le ''0.9'' ''1.0''
   \<and> send_cmd ''1.0'' ''status'' False \<lparr>conn = None, version = None,
      net = [Inr \<lparr>rds = [Inr (''Info Beamer PI 0.9 (test)'' @ NL)], wrs = []\<rparr>], wire = []\<rparr>
     = (Inl Unsupported, \<lparr>conn = Some \<lparr>rds = [], wrs = []\<rparr>, version = Some ''0.9'', net = [], wire = [Dial]\<rparr>)
   \<and> written [Dial] = []"
proof -
  have r: "reconnect \<lparr>conn = None, version = None,
      net = [Inr \<lparr>rds = [Inr (''Info Beamer PI 0.9 (test)'' @ NL)], wrs = []\<rparr>], wire = []\<rparr>
     = Inr \<lparr>conn = Some \<lparr>rds = [], wrs = []\<rparr>, version = Some ''0.9'', net = [], wire = [Dial]\<rparr>"
    by (simp add: reconnect_def readline_def match_intro_def startswith_def NL_def)
  have s: "str_le ''0.9'' ''1.0''" by simp
  from send_cmd_unsupported_writes_nothing[OF r _ s, of "''status''" False] r s
  show ?thesis by simp
qed

text \<open>
  The test is \<^verbatim>\<open>self._version <= min_version\<close>: a link whose version equals the minimum of the
  command is rejected too, although the text of the exception reads "or higher required".
\<close>

lemma str_le_refl: "str_le v v"
  by (induction v) simp_all

lemma send_cmd_equal_version_unsupported:
  assumes "conn l = Some p" and "version l = Some v"
  shows "send_cmd v cmd multiline l = (Inl Unsupported, l)"
proof -
  have "reconnect l = Inr l" using assms(1) by (rule reconnect_connected)
  moreover have "ver_le (version l) v" using assms(2) by (simp add: str_le_refl)
  ultimately have "send_attempt v cmd multiline l = (Raise Unsupported, l)"
    by (rule send_attempt_gate)
  then show ?thesis by (simp add: send_cmd_unfold)
qed

subsection \<open>A timeout while waiting for the response\<close>

text \<open>
  The \<^verbatim>\<open>except socket.timeout\<close> clause of \<^verbatim>\<open>_send_cmd\<close> comes after \<^verbatim>\<open>except socket.error\<close>.
  A timeout is a \<^verbatim>\<open>socket.error\<close>, so the earlier clause catches it: the connection is reset
  and the loop continues.  \<^verbatim>\<open>_reconnect\<close> has the two clauses in the other order and does
  tell a timeout apart.

  Claim C2 (a timeout in the first attempt fails at once with the timeout error and there is
  no second attempt).  At the input below the link is connected, the peer lets the read of
  the response time out, and a new connection answers the handshake and the command.  The
  code reconnects, writes the command a second time and returns the second answer.
\<close>

theorem send_cmd_timeout_is_retried:
  "send_cmd ''0.6'' ''*query/*ping'' False
     \<lparr>conn = Some \<lparr>rds = [Inl SocketTimeout], wrs = []\<rparr>, version = Some ''1.0'',
      net = [Inr \<lparr>rds = [Inr (''Info Beamer PI 1.0 (test)'' @ NL), Inr (''pong'' @ NL)], wrs = []\<rparr>],
      wire = []\<rparr>
   = (Inr ''pong'',
      \<lparr>conn = Some \<lparr>rds = [], wrs = []\<rparr>, version = Some ''1.0'', net = [],
       wire = [Write (''*query/*ping'' @ NL), Dial, Write (''*query/*ping'' @ NL)]\<rparr>)"
  by (simp add: send_cmd_def send_attempt_def reconnect_def exchange_def write_flush_def parse_line_def
      readline_def send_failed_def reset_def match_intro_def startswith_def rstrip_def is_space_def NL_def)

lemma send_cmd_never_response_timeout: "fst (send_cmd min_version cmd multiline l) \<noteq> Inl ResponseTimeout"
proof -
  have a: "\<And>k k'. send_attempt min_version cmd multiline k \<noteq> (Raise ResponseTimeout, k')"
  proof
    fix k k' assume "send_attempt min_version cmd multiline k = (Raise ResponseTimeout, k')"
    from send_attempt_Raise[OF this] have "reconnect k = Inl (ResponseTimeout, k')" by simp
    then show False
      by (auto simp: reconnect_def reconnect_failed_def Let_def split: if_splits list.splits sum.splits prod.splits option.splits)
  qed
  show ?thesis
    using a by (auto simp: send_cmd_unfold split: prod.splits outcome.splits)
qed

subsection \<open>What a successful exchange returns\<close>

lemma multi_loop_body:
  assumes "\<forall>b \<in> set body. rstrip b \<noteq> []" and "t \<noteq> []" and "rstrip t = []"
  shows "multi_loop acc (map Inr body @ Inr t # rest) = (Inr (Some (join_nl (acc @ map rstrip body))), rest)"
  using assms
proof (induction body arbitrary: acc)
  case Nil
  then show ?case by simp
next
  case (Cons b body)
  from Cons.prems have "b \<noteq> []" by (auto simp: rstrip_def)
  with Cons show ?case by simp
qed

lemma rstrip_line: "s = [] \<or> \<not> is_space (last s) \<Longrightarrow> rstrip (s @ NL) = s"
proof -
  assume a: "s = [] \<or> \<not> is_space (last s)"
  have "dropWhile is_space (rev s) = rev s"
    using a by (cases s rule: rev_cases) auto
  then show ?thesis by (simp add: rstrip_def NL_def is_space_def)
qed

text \<open>
  Claim C3 as the code has it.  Let the version gate be passed and the write succeed.
  Single-line: when the peer sends a line (it is not the empty string of a closed
  connection), the result is that line with all its trailing whitespace removed, not only
  the newline.  Multi-line: when the peer sends the lines \<open>body\<close>, none of them blank,
  followed by a line \<open>t\<close> of whitespace only, the result is the lines of \<open>body\<close>, each with
  all its trailing whitespace removed, joined by newlines.
\<close>

theorem send_cmd_response_rstripped:
  assumes "reconnect l = Inr l1" and "conn l1 = Some p" and "\<not> ver_le (version l1) min_version"
    and "fst (write_flush p) = None"
    and "rds p = Inr line # rest" and "line \<noteq> []"
    and "reconnect k = Inr k1" and "conn k1 = Some q" and "\<not> ver_le (version k1) min_version2"
    and "fst (write_flush q) = None"
    and "rds q = map Inr body @ Inr t # rest2"
    and "\<forall>b \<in> set body. rstrip b \<noteq> []" and "t \<noteq> []" and "rstrip t = []"
  shows "fst (send_cmd min_version cmd False l) = Inr (rstrip line) \<and>
         fst (send_cmd min_version2 cmd2 True k) = Inr (join_nl (map rstrip body))"
proof -
  obtain p1 where w: "write_flush p = (None, p1)" and r1: "rds p1 = rds p"
    using assms(4) by (auto simp: write_flush_def split: list.splits)
  have s: "exchange False p = (Inr (Some (rstrip line)), p1\<lparr>rds := rest\<rparr>)"
    using w r1 assms(5,6) by (simp add: exchange_def parse_line_def readline_def)
  obtain q1 where w2: "write_flush q = (None, q1)" and r2: "rds q1 = rds q"
    using assms(10) by (auto simp: write_flush_def split: list.splits)
  have m: "exchange True q = (Inr (Some (join_nl (map rstrip body))), q1\<lparr>rds := rest2\<rparr>)"
    using multi_loop_body[OF assms(12-14), of "[]" rest2] assms(11) r2 w2
    by (simp add: exchange_def parse_multi_line_def)
  have a: "fst (send_cmd min_version cmd False l) = Inr (rstrip line)"
    using s by (simp add: send_cmd_unfold send_attempt_exchange[OF assms(1,3,2)])
  have b: "fst (send_cmd min_version2 cmd2 True k) = Inr (join_nl (map rstrip body))"
    using m by (simp add: send_cmd_unfold send_attempt_exchange[OF assms(7,9,8)])
  from a b show ?thesis by simp
qed

theorem send_cmd_response_rstripped_witness:
  "fst (send_cmd ''0.6'' ''*query/*version'' False
      \<lparr>conn = Some \<lparr>rds = [Inr (''1.0 '' @ NL)], wrs = []\<rparr>, version = Some ''1.0'', net = [], wire = []\<rparr>)
     = Inr ''1.0'' \<and>
   fst (send_cmd ''0.6'' ''*query/*error/top'' True
      \<lparr>conn = Some \<lparr>rds = [Inr (''line one  '' @ NL), Inr (''line two'' @ NL), Inr NL], wrs = []\<rparr>,
       version = Some ''1.0'', net = [], wire = []\<rparr>) = Inr (''line one'' @ NL @ ''line two'')"
proof -
  let ?p = "\<lparr>rds = [Inr (''1.0 '' @ NL)], wrs = []\<rparr>"
  let ?l = "\<lparr>conn = Some ?p, version = Some ''1.0'', net = [], wire = []\<rparr>"
  let ?q = "\<lparr>rds = [Inr (''line one  '' @ NL), Inr (''line two'' @ NL), Inr NL], wrs = []\<rparr>"
  let ?k = "\<lparr>conn = Some ?q, version = Some ''1.0'', net = [], wire = []\<rparr>"
  have 1: "reconnect ?l = Inr ?l" by (simp add: reconnect_def)
  have 2: "conn ?l = Some ?p" by simp
  have 3: "\<not> ver_le (version ?l) ''0.6''" by simp
  have 4: "fst (write_flush ?p) = None" by (simp add: write_flush_def)
  have 5: "rds ?p = Inr (''1.0 '' @ NL) # []" by simp
  have 6: "''1.0 '' @ NL \<noteq> []" by simp
  have 7: "reconnect ?k = Inr ?k" by (simp add: reconnect_def)
  have 8: "conn ?k = Some ?q" by simp
  have 9: "\<not> ver_le (version ?k) ''0.6''" by simp
  have 10: "fst (write_flush ?q) = None" by (simp add: write_flush_def)
  have 11: "rds ?q = map Inr [''line one  '' @ NL, ''line two'' @ NL] @ Inr NL # []" by simp
  have 12: "\<forall>b \<in> set [''line one  '' @ NL, ''line two'' @ NL]. rstrip b \<noteq> []"
    by (simp add: rstrip_def is_space_def NL_def)
  have 13: "NL \<noteq> []" by (simp add: NL_def)
  have 14: "rstrip NL = []" by (simp add: rstrip_def is_space_def NL_def)
  have 15: "rstrip (''1.0 '' @ NL) = ''1.0''" "rstrip (''line one  '' @ NL) = ''line one''"
    "rstrip (''line two'' @ NL) = ''line two''"
    by (simp_all add: rstrip_def is_space_def NL_def)
  from send_cmd_response_rstripped[OF 1 2 3 4 5 6 7 8 9 10 11 12 13 14,
      of "''*query/*version''" "''*query/*error/top''"] 15
  show ?thesis by simp
qed

text \<open>
  Claim C3 as stated (the single line minus its trailing newline, no other byte altered)
  fails when the line ends in whitespace before the newline: the peer sends \<^verbatim>\<open>"1.0 \n"\<close> and
  the caller gets \<^verbatim>\<open>"1.0"\<close>.
\<close>

theorem send_cmd_not_byte_for_byte:
  "fst (send_cmd ''0.6'' ''*query/*version'' False
      \<lparr>conn = Some \<lparr>rds = [Inr (''1.0 '' @ NL)], wrs = []\<rparr>, version = Some ''1.0'', net = [], wire = []\<rparr>)
     = Inr ''1.0'' \<and>
   fst (send_cmd ''0.6'' ''*query/*version'' False
      \<lparr>conn = Some \<lparr>rds = [Inr (''1.0 '' @ NL)], wrs = []\<rparr>, version = Some ''1.0'', net = [], wire = []\<rparr>)
     \<noteq> Inr ''1.0 ''"
  by (simp add: send_cmd_def send_attempt_def reconnect_def exchange_def write_flush_def parse_line_def
      readline_def rstrip_def is_space_def NL_def)

subsection \<open>Retrying after a dead connection\<close>

lemma send_attempt_wire:
  "\<exists>es. wire (snd (send_attempt mv cmd ml l)) = wire l @ es \<and> writes es \<le> 1 \<and>
        dials es = (if conn l = None then 1 else 0)"
proof (cases "reconnect l")
  case (Inl a)
  then have r: "reconnect l = Inl (fst a, snd a)" by simp
  from reconnect_Inl[OF r] have "wire (snd a) = wire l @ [Dial]" "conn l = None" by simp_all
  moreover have "send_attempt mv cmd ml l = (Raise (fst a), snd a)"
    using Inl by (simp add: send_attempt_def split: prod.splits)
  ultimately show ?thesis by simp
next
  case (Inr l1)
  from reconnect_Inr[OF Inr] obtain p where p: "conn l1 = Some p"
    and w: "wire l1 = (if conn l = None then wire l @ [Dial] else wire l)" by auto
  show ?thesis
  proof (cases "ver_le (version l1) mv")
    case True
    with Inr w show ?thesis by (simp add: send_attempt_gate)
  next
    case False
    have "wire (snd (send_attempt mv cmd ml l)) = wire l1 @ [Write (cmd @ NL)]"
      unfolding send_attempt_exchange[OF Inr False p]
      by (simp split: prod.splits sum.splits option.splits)
    with w show ?thesis by simp
  qed
qed

lemma send_cmd_wire:
  "\<exists>es. wire (snd (send_cmd mv cmd ml l)) = wire l @ es \<and> writes es \<le> 2 \<and> dials es \<le> 2"
proof (cases "send_attempt mv cmd ml l")
  case (Pair o1 l1)
  from send_attempt_wire[of mv cmd ml l] Pair obtain es1 where
    1: "wire l1 = wire l @ es1" "writes es1 \<le> 1" "dials es1 \<le> 1" by (auto split: if_splits)
  show ?thesis
  proof (cases o1)
    case (Return r)
    with Pair 1 show ?thesis by (simp add: send_cmd_unfold)
  next
    case (Raise e)
    with Pair 1 show ?thesis by (simp add: send_cmd_unfold)
  next
    case Continue
    from send_attempt_wire[of mv cmd ml l1] obtain es2 where
      2: "wire (snd (send_attempt mv cmd ml l1)) = wire l1 @ es2" "writes es2 \<le> 1" "dials es2 \<le> 1"
      by (auto split: if_splits)
    have "wire (snd (send_cmd mv cmd ml l)) = wire (snd (send_attempt mv cmd ml l1))"
      using Pair Continue by (simp add: send_cmd_unfold split: prod.splits outcome.splits)
    with 1 2 have "wire (snd (send_cmd mv cmd ml l)) = wire l @ (es1 @ es2) \<and> writes (es1 @ es2) \<le> 2 \<and> dials (es1 @ es2) \<le> 2"
      by (simp add: writes_append dials_append)
    then show ?thesis by blast
  qed
qed

text \<open>
  Claim C6.  Let the version gate be passed and the first attempt end in an empty read
  (the response is \<^verbatim>\<open>None\<close>) or in a socket exception, raised by the write or by a read.
  Then the first iteration discards the connection and continues; \<^verbatim>\<open>_send_cmd\<close> ends as the
  one further iteration ends, which opens exactly one new connection; if the handshake of
  that connection passes the gate the command is written once more, so that the wire shows
  write, dial, write; at most two writes happen in all; and "Failed to get a response" is
  raised, with the connection discarded, exactly when the second iteration also continues.
\<close>
theorem send_cmd_retries_once:
  assumes "reconnect l = Inr l0" and "conn l0 = Some p" and "\<not> ver_le (version l0) min_version"
    and "fst (exchange multiline p) = Inl e \<or> fst (exchange multiline p) = Inr None"
  shows "send_attempt min_version cmd multiline l = (Continue, l0\<lparr>wire := wire l0 @ [Write (cmd @ NL)], conn := None\<rparr>) \<and>
         send_cmd min_version cmd multiline l =
           (case send_attempt min_version cmd multiline (l0\<lparr>wire := wire l0 @ [Write (cmd @ NL)], conn := None\<rparr>) of
              (Return response, l2) \<Rightarrow> (Inr response, l2)
            | (Raise err, l2) \<Rightarrow> (Inl err, l2)
            | (Continue, l2) \<Rightarrow> (Inl NoResponse, l2)) \<and>
         dials (wire (snd (send_cmd min_version cmd multiline l))) = dials (wire l0) + 1 \<and>
         writes (wire (snd (send_cmd min_version cmd multiline l))) \<le> writes (wire l0) + 2 \<and>
         (fst (send_cmd min_version cmd multiline l) = Inl NoResponse) =
           (fst (send_attempt min_version cmd multiline (l0\<lparr>wire := wire l0 @ [Write (cmd @ NL)], conn := None\<rparr>)) = Continue) \<and>
         (fst (send_cmd min_version cmd multiline l) = Inl NoResponse \<longrightarrow>
            conn (snd (send_cmd min_version cmd multiline l)) = None) \<and>
         (\<forall>k. reconnect (l0\<lparr>wire := wire l0 @ [Write (cmd @ NL)], conn := None\<rparr>) = Inr k \<and>
              \<not> ver_le (version k) min_version \<longrightarrow>
              wire (snd (send_cmd min_version cmd multiline l)) =
                wire l0 @ [Write (cmd @ NL), Dial, Write (cmd @ NL)])"
proof -
  let ?l1 = "l0\<lparr>wire := wire l0 @ [Write (cmd @ NL)], conn := None\<rparr>"
  let ?a2 = "send_attempt min_version cmd multiline ?l1"
  have a1: "send_attempt min_version cmd multiline l = (Continue, ?l1)"
    unfolding send_attempt_exchange[OF assms(1,3,2)] using assms(4)
    by (auto split: prod.splits sum.splits option.splits)
  have sc: "send_cmd min_version cmd multiline l =
      (case ?a2 of (Return response, l2) \<Rightarrow> (Inr response, l2) | (Raise err, l2) \<Rightarrow> (Inl err, l2)
       | (Continue, l2) \<Rightarrow> (Inl NoResponse, l2))"
    by (simp add: send_cmd_unfold a1)
  have w: "wire (snd (send_cmd min_version cmd multiline l)) = wire (snd ?a2)"
    by (simp add: sc split: prod.splits outcome.splits)
  from send_attempt_wire[of min_version cmd multiline ?l1] obtain es where
    es: "wire (snd ?a2) = wire ?l1 @ es" "writes es \<le> 1" "dials es = 1" by auto
  have d: "dials (wire (snd (send_cmd min_version cmd multiline l))) = dials (wire l0) + 1"
    using es by (simp add: w dials_append)
  have wr: "writes (wire (snd (send_cmd min_version cmd multiline l))) \<le> writes (wire l0) + 2"
    using es by (simp add: w writes_append)
  have nr: "\<And>k. ?a2 \<noteq> (Raise NoResponse, k)"
    using send_attempt_Raise by blast
  have iff: "(fst (send_cmd min_version cmd multiline l) = Inl NoResponse) = (fst ?a2 = Continue)"
    using nr by (cases ?a2; cases "fst ?a2") (auto simp: sc)
  have c: "fst (send_cmd min_version cmd multiline l) = Inl NoResponse \<longrightarrow>
            conn (snd (send_cmd min_version cmd multiline l)) = None"
  proof
    assume "fst (send_cmd min_version cmd multiline l) = Inl NoResponse"
    with iff have "fst ?a2 = Continue" by simp
    then obtain l2 where a2: "?a2 = (Continue, l2)" by (cases ?a2) simp
    from send_attempt_Continue[OF a2] have "conn l2 = None" .
    moreover have "send_cmd min_version cmd multiline l = (Inl NoResponse, l2)"
      by (simp add: sc a2)
    ultimately show "conn (snd (send_cmd min_version cmd multiline l)) = None" by simp
  qed
  have re: "\<forall>k. reconnect ?l1 = Inr k \<and> \<not> ver_le (version k) min_version \<longrightarrow>
      wire (snd (send_cmd min_version cmd multiline l)) = wire l0 @ [Write (cmd @ NL), Dial, Write (cmd @ NL)]"
  proof (intro allI impI, elim conjE)
    fix k assume k: "reconnect ?l1 = Inr k" and v: "\<not> ver_le (version k) min_version"
    from reconnect_Inr[OF k] obtain q where q: "conn k = Some q" and wk: "wire k = wire ?l1 @ [Dial]"
      by auto
    have "wire (snd ?a2) = wire k @ [Write (cmd @ NL)]"
      unfolding send_attempt_exchange[OF k v q]
      by (simp split: prod.splits sum.splits option.splits)
    with wk show "wire (snd (send_cmd min_version cmd multiline l)) = wire l0 @ [Write (cmd @ NL), Dial, Write (cmd @ NL)]"
      by (simp add: w)
  qed
  from a1 sc d wr iff c re show ?thesis by blast
qed

theorem send_cmd_retries_once_witness:
  "reconnect \<lparr>conn = Some \<lparr>rds = [], wrs = []\<rparr>, version = Some ''1.0'',
      net = [Inr \<lparr>rds = [Inr (''Info Beamer PI 1.0 (test)'' @ NL), Inl SocketError], wrs = []\<rparr>], wire = []\<rparr>
     = Inr \<lparr>conn = Some \<lparr>rds = [], wrs = []\<rparr>, version = Some ''1.0'',
      net = [Inr \<lparr>rds = [Inr (''Info Beamer PI 1.0 (test)'' @ NL), Inl SocketError], wrs = []\<rparr>], wire = []\<rparr> \<and>
   fst (exchange False \<lparr>rds = [], wrs = []\<rparr>) = Inr None \<and>
   send_cmd ''0.6'' ''*query/*ping'' False
     \<lparr>conn = Some \<lparr>rds = [], wrs = []\<rparr>, version = Some ''1.0'',
      net = [Inr \<lparr>rds = [Inr (''Info Beamer PI 1.0 (test)'' @ NL), Inl SocketError], wrs = []\<rparr>], wire = []\<rparr>
     = (Inl NoResponse,
        \<lparr>conn = None, version = Some ''1.0'', net = [],
         wire = [Write (''*query/*ping'' @ NL), Dial, Write (''*query/*ping'' @ NL)]\<rparr>) \<and>
   dials (wire (snd (send_cmd ''0.6'' ''*query/*ping'' False
     \<lparr>conn = Some \<lparr>rds = [], wrs = []\<rparr>, version = Some ''1.0'',
      net = [Inr \<lparr>rds = [Inr (''Info Beamer PI 1.0 (test)'' @ NL), Inl SocketError], wrs = []\<rparr>], wire = []\<rparr>))) = 1"
proof -
  let ?p = "\<lparr>rds = [], wrs = []\<rparr> :: peer"
  let ?l = "\<lparr>conn = Some ?p, version = Some ''1.0'',
      net = [Inr \<lparr>rds = [Inr (''Info Beamer PI 1.0 (test)'' @ NL), Inl SocketError], wrs = []\<rparr>], wire = []\<rparr>"
  have 1: "reconnect ?l = Inr ?l" by (simp add: reconnect_def)
  have 2: "conn ?l = Some ?p" by simp
  have 3: "\<not> ver_le (version ?l) ''0.6''" by simp
  have 4: "fst (exchange False ?p) = Inr None"
    by (simp add: exchange_def write_flush_def parse_line_def readline_def)
  have 5: "fst (exchange False ?p) = Inl SocketError \<or> fst (exchange False ?p) = Inr None"
    using 4 by simp
  have 6: "send_attempt ''0.6'' ''*query/*ping'' False
      (?l\<lparr>wire := wire ?l @ [Write (''*query/*ping'' @ NL)], conn := None\<rparr>)
     = (Continue, \<lparr>conn = None, version = Some ''1.0'', net = [],
         wire = [Write (''*query/*ping'' @ NL), Dial, Write (''*query/*ping'' @ NL)]\<rparr>)"
    by (simp add: send_attempt_def reconnect_def exchange_def write_flush_def parse_line_def
      readline_def send_failed_def reset_def match_intro_def startswith_def NL_def)
  from send_cmd_retries_once[OF 1 2 3 5, of "''*query/*ping''"] 1 4 6
  show ?thesis by simp
qed

subsection \<open>The connection after an error\<close>

lemma send_attempt_conn:
  "(case send_attempt mv cmd ml l of
      (Continue, l') \<Rightarrow> conn l' = None
    | (Raise e, l') \<Rightarrow> (conn l' = None) = (e \<noteq> Unsupported) \<and> e \<noteq> NoResponse
    | (Return r, l') \<Rightarrow> True)"
proof (cases "send_attempt mv cmd ml l")
  case (Pair o1 l')
  show ?thesis
  proof (cases o1)
    case (Return r)
    with Pair show ?thesis by simp
  next
    case (Raise e)
    from send_attempt_Raise[OF Pair[unfolded Raise]] reconnect_Inr[of l l'] reconnect_Inl[of l e l']
    show ?thesis using Pair Raise by auto
  next
    case Continue
    from send_attempt_Continue[OF Pair[unfolded Continue]] Pair Continue show ?thesis by simp
  qed
qed

lemma send_cmd_error_conn:
  assumes "fst (send_cmd mv cmd ml l) = Inl e"
  shows "(conn (snd (send_cmd mv cmd ml l)) = None) = (e \<noteq> Unsupported)"
proof (cases "send_attempt mv cmd ml l")
  case (Pair o1 l1)
  show ?thesis
  proof (cases o1)
    case (Return r)
    with Pair assms show ?thesis by (simp add: send_cmd_unfold)
  next
    case (Raise x)
    with Pair assms send_attempt_conn[of mv cmd ml l] show ?thesis by (simp add: send_cmd_unfold)
  next
    case Continue
    note c1 = this
    show ?thesis
    proof (cases "send_attempt mv cmd ml l1")
      case (Pair o2 l2)
      show ?thesis
      proof (cases o2)
        case (Return r)
        with Pair \<open>send_attempt mv cmd ml l = (o1, l1)\<close> c1 assms show ?thesis by (simp add: send_cmd_unfold)
      next
        case (Raise x)
        with Pair \<open>send_attempt mv cmd ml l = (o1, l1)\<close> c1 assms send_attempt_conn[of mv cmd ml l1]
        show ?thesis by (simp add: send_cmd_unfold)
      next
        case Continue
        with Pair \<open>send_attempt mv cmd ml l = (o1, l1)\<close> c1 assms send_attempt_conn[of mv cmd ml l1]
        show ?thesis by (auto simp: send_cmd_unfold)
      qed
    qed
  qed
qed

text \<open>
  Claim C10.  On a connected link whose version does not pass the gate of a command,
  \<^verbatim>\<open>_send_cmd\<close> raises the version exception and leaves the link as it was; a following
  command whose gate is passed goes out on the same connection, with no new connection
  opened.  For every call that ends in an exception, the link is disconnected afterwards
  exactly when the exception is not the version exception.
\<close>
theorem send_cmd_unsupported_keeps_connection:
  assumes "conn l = Some p" and "ver_le (version l) min_version"
    and "\<not> ver_le (version l) min_version2" and "exchange multiline2 p = (Inr (Some response), p')"
    and "fst (send_cmd min_version3 cmd3 multiline3 k) = Inl e"
  shows "send_cmd min_version cmd multiline l = (Inl Unsupported, l) \<and>
         send_cmd min_version2 cmd2 multiline2 (snd (send_cmd min_version cmd multiline l)) =
           (Inr response, l\<lparr>wire := wire l @ [Write (cmd2 @ NL)], conn := Some p'\<rparr>) \<and>
         (conn (snd (send_cmd min_version3 cmd3 multiline3 k)) = None) = (e \<noteq> Unsupported)"
proof -
  have r: "reconnect l = Inr l" using assms(1) by (rule reconnect_connected)
  have u: "send_cmd min_version cmd multiline l = (Inl Unsupported, l)"
    by (simp add: send_cmd_unfold send_attempt_gate[OF r assms(2)])
  have "send_cmd min_version2 cmd2 multiline2 l = (Inr response, l\<lparr>wire := wire l @ [Write (cmd2 @ NL)], conn := Some p'\<rparr>)"
    by (simp add: send_cmd_unfold send_attempt_exchange[OF r assms(3,1)] assms(4))
  with u send_cmd_error_conn[OF assms(5)] show ?thesis by simp
qed

theorem send_cmd_unsupported_keeps_connection_witness:
  "send_cmd ''1.0'' ''*query/*display'' False
     \<lparr>conn = Some \<lparr>rds = [Inr (''pong'' @ NL)], wrs = []\<rparr>, version = Some ''0.9.4'', net = [], wire = [Dial]\<rparr>
     = (Inl Unsupported,
        \<lparr>conn = Some \<lparr>rds = [Inr (''pong'' @ NL)], wrs = []\<rparr>, version = Some ''0.9.4'', net = [], wire = [Dial]\<rparr>) \<and>
   send_cmd ''0.6'' ''*query/*ping'' False
     (snd (send_cmd ''1.0'' ''*query/*display'' False
        \<lparr>conn = Some \<lparr>rds = [Inr (''pong'' @ NL)], wrs = []\<rparr>, version = Some ''0.9.4'', net = [], wire = [Dial]\<rparr>))
     = (Inr ''pong'',
        \<lparr>conn = Some \<lparr>rds = [], wrs = []\<rparr>, version = Some ''0.9.4'', net = [],
         wire = [Dial, Write (''*query/*ping'' @ NL)]\<rparr>) \<and>
   fst (send_cmd ''0.6'' ''*query/*ping'' False \<lparr>conn = None, version = None, net = [], wire = []\<rparr>)
     = Inl CannotConnect \<and>
   conn (snd (send_cmd ''0.6'' ''*query/*ping'' False \<lparr>conn = None, version = None, net = [], wire = []\<rparr>))
     = None"
proof -
  let ?p = "\<lparr>rds = [Inr (''pong'' @ NL)], wrs = []\<rparr>"
  let ?l = "\<lparr>conn = Some ?p, version = Some ''0.9.4'', net = [], wire = [Dial]\<rparr>"
  let ?k = "\<lparr>conn = None, version = None, net = [], wire = []\<rparr> :: link"
  have 1: "conn ?l = Some ?p" by simp
  have 2: "ver_le (version ?l) ''1.0''" by simp
  have 3: "\<not> ver_le (version ?l) ''0.6''" by simp
  have 4: "exchange False ?p = (Inr (Some ''pong''), \<lparr>rds = [], wrs = []\<rparr>)"
    by (simp add: exchange_def write_flush_def parse_line_def readline_def rstrip_def is_space_def NL_def)
  have 5: "fst (send_cmd ''0.6'' ''*query/*ping'' False ?k) = Inl CannotConnect"
    by (simp add: send_cmd_def send_attempt_def reconnect_def reconnect_failed_def reset_def)
  note t = send_cmd_unsupported_keeps_connection[OF 1 2 3 4 5, of "''*query/*display''" False "''*query/*ping''"]
  from t have a: "send_cmd ''1.0'' ''*query/*display'' False ?l = (Inl Unsupported, ?l)" by (rule conjunct1)
  from t have b: "send_cmd ''0.6'' ''*query/*ping'' False (snd (send_cmd ''1.0'' ''*query/*display'' False ?l)) =
      (Inr ''pong'', ?l\<lparr>wire := wire ?l @ [Write (''*query/*ping'' @ NL)], conn := Some \<lparr>rds = [], wrs = []\<rparr>\<rparr>)"
    by (rule conjunct1[OF conjunct2])
  from t have c: "conn (snd (send_cmd ''0.6'' ''*query/*ping'' False ?k)) = None" by simp
  from a b c 5 show ?thesis by simp
qed

section \<open>Properties of RPC\<close>

text \<open>
  Claim C7 as the code has it.  Let the arguments of the call encode to a line.  When there
  is no stream and the attempt to open one ends in an exception of the query, the call
  returns \<^verbatim>\<open>None\<close>, which is false as a truth value, raises nothing, and the channel stays
  without a stream.  When there is a stream and the write goes through, the call returns
  \<^verbatim>\<open>True\<close>, and the line with a newline has been written.  When the encoding of the
  arguments raises, the call raises that exception and the channel is as it was.
\<close>

theorem rpc_call_fails_disconnected_succeeds_connected:
  assumes "dumps (PStr method # args) = Inr line"
    and "con r = None"
    and "fst (node_io True (rpc_path r @ ''/rpc/python'')
               \<lparr>conn = None, version = None, net = rpc_net r, wire = rpc_wire r\<rparr>) = Inl e"
    and "con r' = Some p" and "fst (write_flush p) = None"
    and "dumps' (PStr method' # args') = Inl x"
  shows "fst (rpc_call dumps method args r) = Inr PyNone \<and> \<not> truthy PyNone \<and>
         con (snd (rpc_call dumps method args r)) = None \<and>
         fst (rpc_call dumps method args r') = Inr PyTrue \<and> truthy PyTrue \<and>
         rpc_wire (snd (rpc_call dumps method args r')) = rpc_wire r' @ [Write (line @ NL)] \<and>
         rpc_call dumps' method' args' r'' = (Inl x, r'')"
proof -
  have "fst (get_connection r) = None \<and> con (snd (get_connection r)) = None"
    using assms(2,3) by (auto simp: get_connection_def split: prod.splits sum.splits)
  then have "fst (rpc_send line r) = PyNone \<and> con (snd (rpc_send line r)) = None"
    by (cases "get_connection r") (simp add: rpc_send_def)
  then have a: "fst (rpc_call dumps method args r) = Inr PyNone \<and>
      con (snd (rpc_call dumps method args r)) = None"
    by (cases "rpc_send line r") (simp add: rpc_call_def assms(1))
  have "get_connection r' = (Some p, r')"
    using assms(4) by (simp add: get_connection_def)
  moreover obtain p' where "write_flush p = (None, p')"
    using assms(5) by (cases "write_flush p") simp
  ultimately have "fst (rpc_send line r') = PyTrue \<and>
      rpc_wire (snd (rpc_send line r')) = rpc_wire r' @ [Write (line @ NL)]"
    by (simp add: rpc_send_def)
  then have b: "fst (rpc_call dumps method args r') = Inr PyTrue \<and>
      rpc_wire (snd (rpc_call dumps method args r')) = rpc_wire r' @ [Write (line @ NL)]"
    by (cases "rpc_send line r'") (simp add: rpc_call_def assms(1))
  have c: "rpc_call dumps' method' args' r'' = (Inl x, r'')"
    by (simp add: rpc_call_def assms(6))
  from a b c show ?thesis by simp
qed

theorem rpc_call_fails_disconnected_succeeds_connected_witness:
  "rpc_call (\<lambda>msg. if PObject 0 \<in> set msg then Inl TypeError else Inr ''[]'') ''ping'' [PInt 1]
     \<lparr>rpc_path = ''root'', con = None, rpc_net = [Inl SocketError, Inl SocketError], rpc_wire = []\<rparr>
     = (Inr PyNone, \<lparr>rpc_path = ''root'', con = None, rpc_net = [Inl SocketError], rpc_wire = [Dial]\<rparr>) \<and>
   rpc_call (\<lambda>msg. if PObject 0 \<in> set msg then Inl TypeError else Inr ''[]'') ''ping'' [PInt 1]
     \<lparr>rpc_path = ''root'', con = Some \<lparr>rds = [], wrs = []\<rparr>, rpc_net = [], rpc_wire = []\<rparr>
     = (Inr PyTrue, \<lparr>rpc_path = ''root'', con = Some \<lparr>rds = [], wrs = []\<rparr>, rpc_net = [],
          rpc_wire = [Write (''[]'' @ NL)]\<rparr>) \<and>
   rpc_call (\<lambda>msg. if PObject 0 \<in> set msg then Inl TypeError else Inr ''[]'') ''ping'' [PObject 0]
     \<lparr>rpc_path = ''root'', con = Some \<lparr>rds = [], wrs = []\<rparr>, rpc_net = [], rpc_wire = []\<rparr>
     = (Inl TypeError, \<lparr>rpc_path = ''root'', con = Some \<lparr>rds = [], wrs = []\<rparr>, rpc_net = [], rpc_wire = []\<rparr>)"
proof -
  let ?dumps = "\<lambda>msg. if PObject 0 \<in> set msg then Inl TypeError else Inr ''[]''"
  let ?r = "\<lparr>rpc_path = ''root'', con = None, rpc_net = [Inl SocketError, Inl SocketError], rpc_wire = []\<rparr>"
  let ?p = "\<lparr>rds = [], wrs = []\<rparr> :: peer"
  let ?r' = "\<lparr>rpc_path = ''root'', con = Some ?p, rpc_net = [], rpc_wire = []\<rparr>"
  have 1: "?dumps (PStr ''ping'' # [PInt 1]) = Inr ''[]''" by simp
  have 2: "con ?r = None" by simp
  have 3: "fst (node_io True (rpc_path ?r @ ''/rpc/python'')
               \<lparr>conn = None, version = None, net = rpc_net ?r, wire = rpc_wire ?r\<rparr>) = Inl CannotConnect"
    by (simp add: node_io_def send_cmd_def send_attempt_def reconnect_def reconnect_failed_def reset_def)
  have 4: "con ?r' = Some ?p" by simp
  have 5: "fst (write_flush ?p) = None" by (simp add: write_flush_def)
  have 6: "?dumps (PStr ''ping'' # [PObject 0]) = Inl TypeError" by simp
  have 7: "snd (rpc_call ?dumps ''ping'' [PInt 1] ?r) =
      \<lparr>rpc_path = ''root'', con = None, rpc_net = [Inl SocketError], rpc_wire = [Dial]\<rparr>"
    by (simp add: rpc_call_def rpc_send_def get_connection_def node_io_def send_cmd_def send_attempt_def
        reconnect_def reconnect_failed_def reset_def)
  have 8: "snd (rpc_call ?dumps ''ping'' [PInt 1] ?r') = \<lparr>rpc_path = ''root'', con = Some ?p, rpc_net = [],
          rpc_wire = [Write (''[]'' @ NL)]\<rparr>"
    by (simp add: rpc_call_def rpc_send_def get_connection_def write_flush_def)
  note t = rpc_call_fails_disconnected_succeeds_connected[where dumps = ?dumps and dumps' = ?dumps
      and args = "[PInt 1]" and line = "''[]''" and r = ?r and r' = ?r' and p = ?p
      and e = CannotConnect and args' = "[PObject 0]" and x = TypeError
      and r'' = ?r', OF 1 2 3 4 5 6]
  from t have a: "fst (rpc_call ?dumps ''ping'' [PInt 1] ?r) = Inr PyNone" by simp
  from t have b: "fst (rpc_call ?dumps ''ping'' [PInt 1] ?r') = Inr PyTrue" by simp
  from t have c: "rpc_call ?dumps ''ping'' [PObject 0] ?r' = (Inl TypeError, ?r')" by simp
  from a b c 7 8 show ?thesis by (simp add: prod_eq_iff)
qed

text \<open>
  Claim C7 as stated says that a call on a disconnected channel does not raise.  Here the
  channel has no stream and none can be opened, one argument is an object that the encoder
  rejects with \<^verbatim>\<open>TypeError\<close>, and the call ends in that exception.
\<close>

theorem rpc_call_raises:
  "fst (rpc_call (\<lambda>msg. if PObject 0 \<in> set msg then Inl TypeError else Inr ''[]'') ''ping'' [PObject 0]
     \<lparr>rpc_path = ''root'', con = None, rpc_net = [], rpc_wire = []\<rparr>) = Inl TypeError"
  by (simp add: rpc_call_def)

section \<open>Properties of the submit thread\<close>

lemma unlink_others: "x \<notin> set zs \<Longrightarrow> fold (\<lambda>z m. m(z := None)) zs dir x = dir x"
  by (induction zs arbitrary: dir) simp_all

lemma submit_files_skips_empty:
  assumes "distinct (zs @ [fname])" and "\<forall>z \<in> set zs. dir z = Some []"
    and "dir fname = Some content" and "content \<noteq> []"
  shows "submit_files info post n (zs @ fname # rest) delay dir =
     (case post fname n of
        APIError \<Rightarrow> (False, submission_error_delay info, fold (\<lambda>z m. m(z := None)) zs dir)
      | OpenError \<Rightarrow> (True, delay, fold (\<lambda>z m. m(z := None)) zs dir)
      | Returned status \<Rightarrow>
          (case disabled_of status of
             None \<Rightarrow> (True, delay, fold (\<lambda>z m. m(z := None)) zs dir)
           | Some disabled \<Rightarrow> (False, delay, (fold (\<lambda>z m. m(z := None)) zs dir)(fname := None))))"
  using assms
proof (induction zs arbitrary: dir)
  case Nil
  then show ?case by (simp split: upload.splits option.splits)
next
  case (Cons z zs)
  have d: "distinct (zs @ [fname])" using Cons.prems(1) by simp
  have e: "\<forall>y \<in> set zs. (dir(z := None)) y = Some []"
    using Cons.prems(1,2) by auto
  have f: "(dir(z := None)) fname = Some content"
    using Cons.prems(1,3) by auto
  have step: "submit_files info post n ((z # zs) @ fname # rest) delay dir =
      submit_files info post n (zs @ fname # rest) delay (dir(z := None))"
    using Cons.prems(2) by simp
  show ?case
    unfolding step Cons.IH[of "dir(z := None)", OF d e f Cons.prems(4)]
    by (cases "post fname n") (simp_all split: option.splits)
qed

text \<open>
  Claim C8 as the code has it.  Let the ready segments of the listing begin with zero-byte
  files \<open>zs\<close>, which are deleted on the way, followed by a file \<open>fname\<close> that is not empty: it
  is the segment the cycle uploads.  If the upload ends in an \<^verbatim>\<open>APIError\<close>, the cycle sleeps
  for the error delay and the segment is still in the directory with its content.  If the
  upload fails outside the API client (the segment cannot be opened, or the value returned
  has no \<^verbatim>\<open>disabled\<close> entry to read), the segment is still in the directory with its content,
  and the cycle sleeps for the normal delay.  If the upload is answered with a \<^verbatim>\<open>disabled\<close>
  entry, the cycle sleeps for the normal delay and the segment is gone.
\<close>

theorem submit_cycle_failure_keeps_segment:
  assumes "filter (\<lambda>f. startswith f ''submit-'') listing = zs @ fname # rest"
    and "distinct (zs @ [fname])" and "\<forall>z \<in> set zs. dir z = Some []"
    and "dir fname = Some content" and "content \<noteq> []"
    and "failing fname (length (zs @ fname # rest)) = APIError"
    and "broken fname (length (zs @ fname # rest)) = OpenError \<or>
         broken fname (length (zs @ fname # rest)) = Returned status \<and> disabled_of status = None"
    and "accepting fname (length (zs @ fname # rest)) = Returned status'"
    and "disabled_of status' = Some disabled"
  shows "submit_cycle info failing listing dir =
           (submission_error_delay info, fold (\<lambda>z m. m(z := None)) zs dir) \<and>
         snd (submit_cycle info failing listing dir) fname = Some content \<and>
         submit_cycle info broken listing dir =
           (submission_min_delay info, fold (\<lambda>z m. m(z := None)) zs dir) \<and>
         snd (submit_cycle info broken listing dir) fname = Some content \<and>
         submit_cycle info accepting listing dir =
           (submission_min_delay info, (fold (\<lambda>z m. m(z := None)) zs dir)(fname := None)) \<and>
         snd (submit_cycle info accepting listing dir) fname = None"
proof -
  have "fname \<notin> set zs" using assms(2) by simp
  then have k: "fold (\<lambda>z m. m(z := None)) zs dir fname = Some content"
    using assms(4) by (simp add: unlink_others)
  have a: "submit_cycle info failing listing dir =
           (submission_error_delay info, fold (\<lambda>z m. m(z := None)) zs dir)"
    using submit_files_skips_empty[OF assms(2-5), of info failing "length (zs @ fname # rest)" rest]
    by (simp add: submit_cycle_def assms(1,6) del: length_append)
  have b: "submit_cycle info broken listing dir =
           (submission_min_delay info, fold (\<lambda>z m. m(z := None)) zs dir)"
    using submit_files_skips_empty[OF assms(2-5), of info broken "length (zs @ fname # rest)" rest] assms(7)
    by (auto simp add: submit_cycle_def assms(1) simp del: length_append)
  have c: "submit_cycle info accepting listing dir =
           (submission_min_delay info, (fold (\<lambda>z m. m(z := None)) zs dir)(fname := None))"
    using submit_files_skips_empty[OF assms(2-5), of info accepting "length (zs @ fname # rest)" rest]
    by (simp add: submit_cycle_def assms(1,8,9) del: length_append)
  show ?thesis unfolding a b c using k by simp
qed

theorem submit_cycle_failure_keeps_segment_witness:
  "fst (submit_cycle \<lparr>max_delay = 60, max_lines = 3, submission_min_delay = 30, submission_error_delay = 5\<rparr>
      (\<lambda>fname n. APIError) [''current.log'', ''submit-00.log'', ''submit-01.log'']
      [''current.log'' \<mapsto> ''c'', ''submit-00.log'' \<mapsto> [], ''submit-01.log'' \<mapsto> ''a'']) = 5 \<and>
   snd (submit_cycle \<lparr>max_delay = 60, max_lines = 3, submission_min_delay = 30, submission_error_delay = 5\<rparr>
      (\<lambda>fname n. APIError) [''current.log'', ''submit-00.log'', ''submit-01.log'']
      [''current.log'' \<mapsto> ''c'', ''submit-00.log'' \<mapsto> [], ''submit-01.log'' \<mapsto> ''a'']) ''submit-01.log'' = Some ''a'' \<and>
   fst (submit_cycle \<lparr>max_delay = 60, max_lines = 3, submission_min_delay = 30, submission_error_delay = 5\<rparr>
      (\<lambda>fname n. Returned NoDict) [''current.log'', ''submit-00.log'', ''submit-01.log'']
      [''current.log'' \<mapsto> ''c'', ''submit-00.log'' \<mapsto> [], ''submit-01.log'' \<mapsto> ''a'']) = 30 \<and>
   snd (submit_cycle \<lparr>max_delay = 60, max_lines = 3, submission_min_delay = 30, submission_error_delay = 5\<rparr>
      (\<lambda>fname n. Returned NoDict) [''current.log'', ''submit-00.log'', ''submit-01.log'']
      [''current.log'' \<mapsto> ''c'', ''submit-00.log'' \<mapsto> [], ''submit-01.log'' \<mapsto> ''a'']) ''submit-01.log'' = Some ''a'' \<and>
   fst (submit_cycle \<lparr>max_delay = 60, max_lines = 3, submission_min_delay = 30, submission_error_delay = 5\<rparr>
      (\<lambda>fname n. Returned (Dict (Some False))) [''current.log'', ''submit-00.log'', ''submit-01.log'']
      [''current.log'' \<mapsto> ''c'', ''submit-00.log'' \<mapsto> [], ''submit-01.log'' \<mapsto> ''a'']) = 30 \<and>
   snd (submit_cycle \<lparr>max_delay = 60, max_lines = 3, submission_min_delay = 30, submission_error_delay = 5\<rparr>
      (\<lambda>fname n. Returned (Dict (Some False))) [''current.log'', ''submit-00.log'', ''submit-01.log'']
      [''current.log'' \<mapsto> ''c'', ''submit-00.log'' \<mapsto> [], ''submit-01.log'' \<mapsto> ''a'']) ''submit-01.log'' = None"
proof -
  let ?listing = "[''current.log'', ''submit-00.log'', ''submit-01.log'']"
  let ?dir = "[''current.log'' \<mapsto> ''c'', ''submit-00.log'' \<mapsto> [], ''submit-01.log'' \<mapsto> ''a'']"
  have 1: "filter (\<lambda>f. startswith f ''submit-'') ?listing = [''submit-00.log''] @ ''submit-01.log'' # []"
    by (simp add: startswith_def)
  have 2: "distinct ([''submit-00.log''] @ [''submit-01.log''])" by simp
  have 3: "\<forall>z \<in> set [''submit-00.log'']. ?dir z = Some []" by simp
  have 4: "?dir ''submit-01.log'' = Some ''a''" by simp
  have 5: "''a'' \<noteq> []" by simp
  have 6: "(\<lambda>fname n. APIError) ''submit-01.log'' (length ([''submit-00.log''] @ ''submit-01.log'' # [])) = APIError"
    by simp
  have 7: "(\<lambda>fname n. Returned NoDict) ''submit-01.log'' (length ([''submit-00.log''] @ ''submit-01.log'' # [])) = OpenError \<or>
      (\<lambda>fname n. Returned NoDict) ''submit-01.log'' (length ([''submit-00.log''] @ ''submit-01.log'' # [])) = Returned NoDict \<and>
      disabled_of NoDict = None"
    by simp
  have 8: "(\<lambda>fname n. Returned (Dict (Some False))) ''submit-01.log''
      (length ([''submit-00.log''] @ ''submit-01.log'' # [])) = Returned (Dict (Some False))"
    by simp
  have 9: "disabled_of (Dict (Some False)) = Some False" by simp
  from submit_cycle_failure_keeps_segment[where dir = ?dir and listing = ?listing
      and zs = "[''submit-00.log'']" and fname = "''submit-01.log''" and rest = "[]" and content = "''a''"
      and failing = "\<lambda>fname n. APIError" and broken = "\<lambda>fname n. Returned NoDict"
      and accepting = "\<lambda>fname n. Returned (Dict (Some False))" and status = NoDict
      and status' = "Dict (Some False)" and disabled = False
      and info = "\<lparr>max_delay = 60, max_lines = 3, submission_min_delay = 30, submission_error_delay = 5\<rparr>",
      OF 1 2 3 4 5 6 7 8 9]
  show ?thesis by simp
qed

text \<open>
  Claim C8 as stated gives the error delay to every failed upload.  Here the collector
  answers with a dictionary that has no \<^verbatim>\<open>disabled\<close> entry: \<^verbatim>\<open>status['disabled']\<close> raises
  \<^verbatim>\<open>KeyError\<close>, which \<^verbatim>\<open>except APIError\<close> does not catch.  The segment stays in the directory,
  and the cycle sleeps for the normal delay of 30, not for the error delay of 5.
\<close>

theorem submit_cycle_malformed_answer_normal_delay:
  "fst (submit_cycle \<lparr>max_delay = 60, max_lines = 3, submission_min_delay = 30, submission_error_delay = 5\<rparr>
      (\<lambda>fname n. Returned (Dict None)) [''current.log'', ''submit-01.log'']
      [''current.log'' \<mapsto> ''c'', ''submit-01.log'' \<mapsto> ''a'']) = 30 \<and>
   snd (submit_cycle \<lparr>max_delay = 60, max_lines = 3, submission_min_delay = 30, submission_error_delay = 5\<rparr>
      (\<lambda>fname n. Returned (Dict None)) [''current.log'', ''submit-01.log'']
      [''current.log'' \<mapsto> ''c'', ''submit-01.log'' \<mapsto> ''a'']) ''submit-01.log'' = Some ''a''"
  by (simp add: submit_cycle_def startswith_def)

section \<open>Properties of the writer thread\<close>

lemma writer_run_snoc:
  "writer_run info (ts @ [t]) w =
     (case writer_run info ts w of Inl e \<Rightarrow> Inl e | Inr w' \<Rightarrow> writer_step info t w')"
  by (induction ts arbitrary: w) (simp_all split: sum.splits)

lemma writer_step_line:
  assumes "got t = Some l" and "stored t" and "fst (rand t) = 16"
    and "disk w log_name = Some c" and "max_lines info = int K"
  shows "\<exists>w'. writer_step info t w = Inr w' \<and>
     (if Suc (lines w) < K
      then renamed w' = renamed w \<and> disk w' log_name = Some (c @ l @ NL) \<and> lines w' = Suc (lines w)
      else map snd (renamed w') = map snd (renamed w) @ [c @ l @ NL] \<and>
           disk w' log_name = Some [] \<and> lines w' = 0)"
proof -
  obtain bs where g: "get_random_bytes 16 (rand t) = Inr bs"
    using assms(3) by (cases "rand t") (simp add: get_random_bytes_def)
  show ?thesis
    using assms(1,2,4,5) g
    by (auto simp: writer_step_def reopen_log_def Let_def)
qed

lemma chunk_arith:
  fixes K N :: nat
  shows "Suc (N mod K) < K \<Longrightarrow> Suc N div K = N div K \<and> Suc N mod K = Suc (N mod K)"
    and "1 \<le> K \<Longrightarrow> \<not> Suc (N mod K) < K \<Longrightarrow> Suc N div K = Suc (N div K) \<and> Suc N mod K = 0"
proof -
  show "Suc (N mod K) < K \<Longrightarrow> Suc N div K = N div K \<and> Suc N mod K = Suc (N mod K)"
    by (simp add: div_Suc mod_Suc)
  assume "1 \<le> K" and "\<not> Suc (N mod K) < K"
  moreover have "N mod K < K" using \<open>1 \<le> K\<close> by simp
  ultimately have "Suc (N mod K) = K" by linarith
  then show "Suc N div K = Suc (N div K) \<and> Suc N mod K = 0"
    by (simp add: div_Suc mod_Suc)
qed

lemma chunk_full:
  fixes K :: nat
  assumes "i < length ls div K"
  shows "take K (drop (i * K) (ls @ [l])) = take K (drop (i * K) ls)"
proof -
  have "Suc i * K \<le> length ls div K * K" using assms by (simp add: Suc_leI mult_le_mono1 del: mult_Suc)
  also have "\<dots> \<le> length ls" by simp
  finally have "i * K + K \<le> length ls" by simp
  then show ?thesis by simp
qed

lemma writer_run_lines:
  assumes "1 \<le> K" and "max_lines info = int K"
    and "lines w = 0" and "disk w log_name = Some []"
    and "\<forall>t \<in> set ts. stored t \<and> fst (rand t) = 16" and "map got ts = map Some ls"
  shows "\<exists>w'. writer_run info ts w = Inr w' \<and> lines w' = length ls mod K \<and>
      disk w' log_name = Some (concat (map (\<lambda>l. l @ NL) (drop (length ls div K * K) ls))) \<and>
      map snd (renamed w') = map snd (renamed w) @
        map (\<lambda>i. concat (map (\<lambda>l. l @ NL) (take K (drop (i * K) ls)))) [0..<length ls div K]"
  using assms(5,6)
proof (induction ts arbitrary: ls rule: rev_induct)
  case Nil
  then show ?case using assms(3,4) by simp
next
  case (snoc t ts)
  from snoc.prems(2) obtain ls' l where ls: "ls = ls' @ [l]" and g: "got t = Some l"
    and m: "map got ts = map Some ls'"
    by (cases ls rule: rev_cases) auto
  from snoc.prems(1) have st: "stored t" "fst (rand t) = 16" and all: "\<forall>t \<in> set ts. stored t \<and> fst (rand t) = 16"
    by simp_all
  let ?N = "length ls'"
  let ?enc = "\<lambda>xs. concat (map (\<lambda>l. l @ NL) xs)"
  from snoc.IH[OF all m] obtain w1 where
    r1: "writer_run info ts w = Inr w1" and l1: "lines w1 = ?N mod K"
    and d1: "disk w1 log_name = Some (?enc (drop (?N div K * K) ls'))"
    and n1: "map snd (renamed w1) = map snd (renamed w) @
        map (\<lambda>i. ?enc (take K (drop (i * K) ls'))) [0..<?N div K]"
    by blast
  from writer_step_line[OF g st d1 assms(2)] obtain w2 where
    s2: "writer_step info t w1 = Inr w2" and
    c2: "if Suc (lines w1) < K
      then renamed w2 = renamed w1 \<and> disk w2 log_name = Some (?enc (drop (?N div K * K) ls') @ l @ NL) \<and> lines w2 = Suc (lines w1)
      else map snd (renamed w2) = map snd (renamed w1) @ [?enc (drop (?N div K * K) ls') @ l @ NL] \<and>
           disk w2 log_name = Some [] \<and> lines w2 = 0"
    by blast
  have run: "writer_run info (ts @ [t]) w = Inr w2"
    by (simp add: writer_run_snoc r1 s2)
  have le: "?N div K * K \<le> ?N" by simp
  have old: "map (\<lambda>i. ?enc (take K (drop (i * K) (ls' @ [l])))) [0..<?N div K] =
             map (\<lambda>i. ?enc (take K (drop (i * K) ls'))) [0..<?N div K]"
  proof (rule map_cong[OF refl])
    fix i assume "i \<in> set [0..<?N div K]"
    then have "i < ?N div K" by simp
    from chunk_full[OF this, of l]
    show "?enc (take K (drop (i * K) (ls' @ [l]))) = ?enc (take K (drop (i * K) ls'))"
      by (simp only:)
  qed
  have tail: "?enc (drop (?N div K * K) ls') @ l @ NL = ?enc (drop (?N div K * K) (ls' @ [l]))"
    using le by simp
  have len: "length (ls' @ [l]) = Suc ?N" by simp
  show ?case
  proof (cases "Suc (?N mod K) < K")
    case True
    from chunk_arith(1)[OF True] have a: "Suc ?N div K = ?N div K" "Suc ?N mod K = Suc (?N mod K)"
      by simp_all
    from c2 True l1 have f: "renamed w2 = renamed w1"
      "disk w2 log_name = Some (?enc (drop (?N div K * K) ls') @ l @ NL)"
      "lines w2 = Suc (?N mod K)" by simp_all
    have A: "lines w2 = length (ls' @ [l]) mod K"
      unfolding len a f by (rule refl)
    have B: "disk w2 log_name = Some (?enc (drop (length (ls' @ [l]) div K * K) (ls' @ [l])))"
      unfolding len a f tail by (rule refl)
    have C: "map snd (renamed w2) = map snd (renamed w) @
        map (\<lambda>i. ?enc (take K (drop (i * K) (ls' @ [l])))) [0..<length (ls' @ [l]) div K]"
      unfolding len a f old n1 by (rule refl)
    show ?thesis unfolding ls using run A B C by blast
  next
    case False
    from chunk_arith(2)[OF assms(1) False] have a: "Suc ?N div K = Suc (?N div K)" "Suc ?N mod K = 0"
      by simp_all
    have "?N mod K < K" using assms(1) by simp
    with False have mk: "?N mod K = K - 1" by linarith
    have eqK: "?N - ?N div K * K = K - 1"
      using mk by (simp add: minus_div_mult_eq_mod)
    have full: "take K (drop (?N div K * K) (ls' @ [l])) = drop (?N div K * K) (ls' @ [l])"
      using eqK assms(1) by simp
    have "?N div K * K + ?N mod K = ?N" by (rule div_mult_mod_eq)
    with mk assms(1) have "Suc (?N div K) * K = Suc ?N" by simp
    then have empty: "drop (Suc (?N div K) * K) (ls' @ [l]) = []"
      by (simp del: mult_Suc)
    from c2 False l1 have f: "map snd (renamed w2) = map snd (renamed w1) @ [?enc (drop (?N div K * K) ls') @ l @ NL]"
      "disk w2 log_name = Some []" "lines w2 = 0" by simp_all
    have A: "lines w2 = length (ls' @ [l]) mod K"
      unfolding len a f by (rule refl)
    have B: "disk w2 log_name = Some (?enc (drop (length (ls' @ [l]) div K * K) (ls' @ [l])))"
      unfolding len a f empty by simp
    have up: "[0..<Suc (?N div K)] = [0..<?N div K] @ [?N div K]" by simp
    have new: "?enc (take K (drop (?N div K * K) (ls' @ [l]))) = ?enc (drop (?N div K * K) ls') @ l @ NL"
      unfolding full tail by (rule refl)
    have "map (\<lambda>i. ?enc (take K (drop (i * K) (ls' @ [l])))) ([0..<?N div K] @ [?N div K]) =
          map (\<lambda>i. ?enc (take K (drop (i * K) ls'))) [0..<?N div K] @ [?enc (drop (?N div K * K) ls') @ l @ NL]"
      by (simp only: map_append old list.map new)
    then have C: "map snd (renamed w2) = map snd (renamed w) @
        map (\<lambda>i. ?enc (take K (drop (i * K) (ls' @ [l])))) [0..<length (ls' @ [l]) div K]"
      unfolding len a f n1 up by (simp only: append_assoc)
    show ?thesis unfolding ls using run A B C by blast
  qed
qed

lemma concat_chunks:
  "concat (map (\<lambda>i. concat (map f (take K (drop (i * K) ls)))) [0..<d]) = concat (map f (take (d * K) ls))"
proof (induction d)
  case 0
  then show ?case by simp
next
  case (Suc d)
  have "Suc d * K = d * K + K" by simp
  then have "take (Suc d * K) ls = take (d * K) ls @ take K (drop (d * K) ls)"
    by (simp only: take_add)
  with Suc show ?case by (simp del: mult_Suc)
qed

lemma chunk_lengths:
  fixes K :: nat
  shows "map (\<lambda>i. length (take K (drop (i * K) ls))) [0..<length ls div K] = replicate (length ls div K) K"
proof -
  have "\<And>i. i < length ls div K \<Longrightarrow> length (take K (drop (i * K) ls)) = K"
  proof -
    fix i assume "i < length ls div K"
    then have "Suc i * K \<le> length ls div K * K" by (simp add: Suc_leI mult_le_mono1 del: mult_Suc)
    also have "\<dots> \<le> length ls" by simp
    finally have "i * K + K \<le> length ls" by simp
    then show "length (take K (drop (i * K) ls)) = K" by simp
  qed
  then show ?thesis by (simp add: map_replicate_const[symmetric] list_eq_iff_nth_eq)
qed

text \<open>
  Claim C5 as the code has it.  Let \<open>max_lines\<close> be \<open>K \<ge> 1\<close>, let the writer hold a fresh
  active file, and let every wait deliver an entry (no wait times out), every write go
  through and every system call for a random name deliver its 16 bytes.  After the \<open>N\<close>
  entries \<open>ls\<close> the writer has renamed \<open>N div K\<close> segments.  In the order of the renames, the
  \<open>i\<close>-th segment holds the entries \<open>i * K\<close> to \<open>i * K + K - 1\<close>, one per line, which are exactly
  \<open>K\<close> lines; the remaining \<open>N mod K\<close> entries are in the active file, which has not been
  renamed; the segments followed by the active file are the entries in the order of the
  calls.
\<close>
theorem writer_run_full_segments:
  assumes "1 \<le> K" and "max_lines info = int K"
    and "lines w = 0" and "disk w log_name = Some []" and "renamed w = []"
    and "\<forall>t \<in> set ts. stored t \<and> fst (rand t) = 16" and "map got ts = map Some ls"
  shows "\<exists>w'. writer_run info ts w = Inr w' \<and>
      length (renamed w') = length ls div K \<and>
      map snd (renamed w') =
        map (\<lambda>i. concat (map (\<lambda>l. l @ NL) (take K (drop (i * K) ls)))) [0..<length ls div K] \<and>
      map (\<lambda>i. length (take K (drop (i * K) ls))) [0..<length ls div K] = replicate (length ls div K) K \<and>
      disk w' log_name = Some (concat (map (\<lambda>l. l @ NL) (drop (length ls div K * K) ls))) \<and>
      lines w' = length ls mod K \<and>
      concat (map snd (renamed w')) @ concat (map (\<lambda>l. l @ NL) (drop (length ls div K * K) ls)) =
        concat (map (\<lambda>l. l @ NL) ls)"
proof -
  from writer_run_lines[OF assms(1-4,6,7)] obtain w' where
    r: "writer_run info ts w = Inr w'" and l: "lines w' = length ls mod K"
    and d: "disk w' log_name = Some (concat (map (\<lambda>l. l @ NL) (drop (length ls div K * K) ls)))"
    and n: "map snd (renamed w') =
        map (\<lambda>i. concat (map (\<lambda>l. l @ NL) (take K (drop (i * K) ls)))) [0..<length ls div K]"
    using assms(5) by auto
  have "length (map snd (renamed w')) = length ls div K" unfolding n by simp
  then have c: "length (renamed w') = length ls div K" by simp
  have "concat (map snd (renamed w')) = concat (map (\<lambda>l. l @ NL) (take (length ls div K * K) ls))"
    unfolding n by (rule concat_chunks)
  then have o: "concat (map snd (renamed w')) @ concat (map (\<lambda>l. l @ NL) (drop (length ls div K * K) ls)) =
        concat (map (\<lambda>l. l @ NL) ls)"
    by (metis append_take_drop_id concat_append map_append)
  from r c n chunk_lengths[of K ls] d l o show ?thesis by blast
qed

text \<open>The case \<open>K = 3\<close> with seven entries: two segments of three lines, one line in the
  active file.\<close>

theorem writer_run_full_segments_witness:
  "\<exists>w'. writer_run \<lparr>max_delay = 60, max_lines = 3, submission_min_delay = 30, submission_error_delay = 5\<rparr>
      (map (\<lambda>(l, r). \<lparr>got = Some l, stored = True, reached = 0, clock = 1, rand = (16, r)\<rparr>)
        [(''a'', ''0123456789abcde0''), (''b'', ''0123456789abcde1''), (''c'', ''0123456789abcde2''),
         (''d'', ''0123456789abcde3''), (''e'', ''0123456789abcde4''), (''f'', ''0123456789abcde5''),
         (''g'', ''0123456789abcde6'')])
      \<lparr>submit = 60, lines = 0, disk = [log_name \<mapsto> []], renamed = []\<rparr> = Inr w' \<and>
    map snd (renamed w') = [''a'' @ NL @ ''b'' @ NL @ ''c'' @ NL, ''d'' @ NL @ ''e'' @ NL @ ''f'' @ NL] \<and>
    disk w' log_name = Some (''g'' @ NL) \<and> lines w' = 1"
proof -
  let ?info = "\<lparr>max_delay = 60, max_lines = 3, submission_min_delay = 30, submission_error_delay = 5\<rparr>"
  let ?ts = "map (\<lambda>(l, r). \<lparr>got = Some l, stored = True, reached = 0, clock = 1, rand = (16, r)\<rparr>)
        [(''a'', ''0123456789abcde0''), (''b'', ''0123456789abcde1''), (''c'', ''0123456789abcde2''),
         (''d'', ''0123456789abcde3''), (''e'', ''0123456789abcde4''), (''f'', ''0123456789abcde5''),
         (''g'', ''0123456789abcde6'')]"
  let ?w = "\<lparr>submit = 60, lines = 0, disk = [log_name \<mapsto> []], renamed = []\<rparr>"
  let ?ls = "[''a'', ''b'', ''c'', ''d'', ''e'', ''f'', ''g'']"
  have 1: "1 \<le> (3::nat)" by simp
  have 2: "max_lines ?info = int 3" by simp
  have 3: "lines ?w = 0" by simp
  have 4: "disk ?w log_name = Some []" by simp
  have 5: "renamed ?w = []" by simp
  have 6: "\<forall>t \<in> set ?ts. stored t \<and> fst (rand t) = 16" by simp
  have 7: "map got ?ts = map Some ?ls" by simp
  have 8: "length ?ls div 3 = 2" "length ?ls mod 3 = 1" "[0..<2] = [0, 1]" by (simp_all add: upt_rec)
  from writer_run_full_segments[where K = 3 and info = ?info and w = ?w and ts = ?ts and ls = ?ls,
      OF 1 2 3 4 5 6 7]
  obtain w' where "writer_run ?info ?ts ?w = Inr w'"
    and "map snd (renamed w') =
        map (\<lambda>i. concat (map (\<lambda>l. l @ NL) (take 3 (drop (i * 3) ?ls)))) [0..<length ?ls div 3]"
    and "disk w' log_name = Some (concat (map (\<lambda>l. l @ NL) (drop (length ?ls div 3 * 3) ?ls)))"
    and "lines w' = length ?ls mod 3"
    by blast
  then have "writer_run ?info ?ts ?w = Inr w' \<and>
    map snd (renamed w') = [''a'' @ NL @ ''b'' @ NL @ ''c'' @ NL, ''d'' @ NL @ ''e'' @ NL @ ''f'' @ NL] \<and>
    disk w' log_name = Some (''g'' @ NL) \<and> lines w' = 1"
    unfolding 8 by simp
  then show ?thesis by (rule exI)
qed

text \<open>
  Claim C5 as stated asks for \<open>ceil(N/K)\<close> rotated segments.  With \<open>K = 2\<close> and one entry that
  is one segment, but the writer has renamed none: the entry is in the active file.
\<close>

theorem writer_run_partial_segment_not_rotated:
  "map_sum id (length \<circ> renamed)
     (writer_run \<lparr>max_delay = 60, max_lines = 2, submission_min_delay = 30, submission_error_delay = 5\<rparr>
        [\<lparr>got = Some ''a'', stored = True, reached = 0, clock = 1, rand = (16, ''0123456789abcdef'')\<rparr>]
        \<lparr>submit = 60, lines = 0, disk = [log_name \<mapsto> []], renamed = []\<rparr>) = Inr 0 \<and>
   ((1::nat) + 2 - 1) div 2 = 1"
  by (simp add: writer_step_def Let_def)

subsection \<open>Idle waits\<close>

text \<open>
  Claim C9 as the code has it.  Let \<open>max_lines\<close> be at least 1.  When a wait times out and no
  line has been written since the log was opened, the pass adds \<open>max_delay\<close> to the deadline
  and changes nothing else: the directory is the same, nothing is renamed, and the active
  file stays open.
\<close>
theorem writer_step_idle_extends_deadline:
  assumes "1 \<le> max_lines info" and "lines w = 0" and "got t = None"
  shows "writer_step info t w = Inr (w\<lparr>submit := submit w + max_delay info\<rparr>)"
  using assms by (simp add: writer_step_def)

theorem writer_step_idle_extends_deadline_witness:
  "writer_step \<lparr>max_delay = 60, max_lines = 3, submission_min_delay = 30, submission_error_delay = 5\<rparr>
     \<lparr>got = None, stored = True, reached = 0, clock = 61, rand = (16, ''0123456789abcdef'')\<rparr>
     \<lparr>submit = 60, lines = 0, disk = [log_name \<mapsto> []], renamed = []\<rparr>
   = Inr \<lparr>submit = 120, lines = 0, disk = [log_name \<mapsto> []], renamed = []\<rparr>"
  using writer_step_idle_extends_deadline[of
      "\<lparr>max_delay = 60, max_lines = 3, submission_min_delay = 30, submission_error_delay = 5\<rparr>"
      "\<lparr>submit = 60, lines = 0, disk = [log_name \<mapsto> []], renamed = []\<rparr>"
      "\<lparr>got = None, stored = True, reached = 0, clock = 61, rand = (16, ''0123456789abcdef'')\<rparr>"]
  by simp

text \<open>
  Claim C9 as stated holds for every execution.  With \<open>max_lines = 0\<close> the test
  \<^verbatim>\<open>lines >= self._max_lines\<close> succeeds with no line written: the pass that times out renames
  the empty active file to a segment and sets the deadline from the clock.
\<close>

theorem writer_step_rotates_empty_file:
  "writer_step \<lparr>max_delay = 60, max_lines = 0, submission_min_delay = 30, submission_error_delay = 5\<rparr>
     \<lparr>got = None, stored = True, reached = 0, clock = 61, rand = (16, ''0123456789abcdef'')\<rparr>
     \<lparr>submit = 60, lines = 0, disk = [log_name \<mapsto> []], renamed = []\<rparr>
   = Inr \<lparr>submit = 121, lines = 0,
          disk = [''submit-30313233343536373839616263646566.log'' \<mapsto> [], log_name \<mapsto> []],
          renamed = [(''submit-30313233343536373839616263646566.log'', [])]\<rparr>"
  by (simp add: writer_step_def reopen_log_def get_random_bytes_def hexlify_def hex_digit_def log_name_def Let_def)

section \<open>Properties of logging\<close>

text \<open>
  Claim C1 as the code has it.  When the system call delivers the 12 random bytes and the
  entry can be encoded, \<^verbatim>\<open>log\<close> appends the encoded entry, whose first field is the id made
  of the time and the random bytes, to the queue and raises nothing.  When the system call
  returns anything but 12, \<^verbatim>\<open>get_random_bytes\<close> raises \<^verbatim>\<open>OSError\<close>, which \<^verbatim>\<open>log\<close> does not
  catch, and nothing is put into the queue.
\<close>
theorem pop_log_enqueues_unless_getrandom_fails:
  assumes "length bytes = 12"
    and "dumps [PStr (hex8 now @ hexlify bytes), play_start, duration,
                (if asset_id = PNone then PInt 0 else asset_id), asset_filename] = Inr line"
    and "result \<noteq> 12"
  shows "pop_log dumps now (12, bytes) play_start duration asset_id asset_filename q = Inr (q @ [line]) \<and>
         pop_log dumps now (result, buf) play_start duration asset_id asset_filename q = Inl OSError"
  using assms by (simp add: pop_log_def get_random_bytes_def)

theorem pop_log_enqueues_unless_getrandom_fails_witness:
  "pop_log (\<lambda>entry. Inr ''[]'') 1700000000 (12, ''0123456789ab'') (PInt 1700000000) (PInt 10) PNone (PStr ''a.jpg'') []
     = Inr [''[]''] \<and>
   pop_log (\<lambda>entry. Inr ''[]'') 1700000000 (-1, []) (PInt 1700000000) (PInt 10) PNone (PStr ''a.jpg'') []
     = Inl OSError"
  using pop_log_enqueues_unless_getrandom_fails[of "''0123456789ab''" "\<lambda>entry. Inr ''[]''" 1700000000
      "PInt 1700000000" "PInt 10" PNone "PStr ''a.jpg''" "''[]''" "-1" "[]" "[]"]
  by simp

text \<open>
  Claim C1 as stated says that \<^verbatim>\<open>log\<close> never raises.  Here the system call fails (it returns
  -1) and the call of \<^verbatim>\<open>log\<close> ends in \<^verbatim>\<open>OSError\<close>.
\<close>

theorem pop_log_raises:
  "pop_log (\<lambda>entry. Inr ''[]'') 1700000000 (-1, []) (PInt 1700000000) (PInt 10) PNone (PStr ''a.jpg'') []
     = Inl OSError"
  by (simp add: pop_log_def get_random_bytes_def)

end
